theory Spec2Isabelle
  imports Complex_Main
begin

section \<open>JavaScript primitives used by the archiver\<close>

text \<open>
  Strings are lists of code units; \<open>s.length\<close> is \<open>length s\<close> and
  \<open>s.substring(0, n)\<close> is \<open>take n s\<close>.  Pixel and point measures are JavaScript
  numbers; they are modelled as rationals, integers where the source only ever holds integers.
\<close>

text \<open>\<open>a.indexOf(x)\<close>: the first position holding \<open>x\<close>, or \<open>-1\<close>.  Array elements
  that are objects are compared by identity, so object arrays are lists of references.\<close>

fun indexOf_from :: "'a list \<Rightarrow> 'a \<Rightarrow> int \<Rightarrow> int" where
  "indexOf_from [] x k = - 1"
| "indexOf_from (y # ys) x k = (if y = x then k else indexOf_from ys x (k + 1))"

definition indexOf :: "'a list \<Rightarrow> 'a \<Rightarrow> int" where
  "indexOf xs x = indexOf_from xs x 0"

text \<open>\<open>s.startsWith(p)\<close>.\<close>

definition startsWith :: "string \<Rightarrow> string \<Rightarrow> bool" where
  "startsWith s p = (take (length p) s = p)"

text \<open>\<open>s.split(' ')\<close>, \<open>a.slice(0, n)\<close> and \<open>a.join(sep)\<close>.\<close>

fun split_acc :: "char \<Rightarrow> string \<Rightarrow> string \<Rightarrow> string list" where
  "split_acc c [] cur = [rev cur]"
| "split_acc c (x # xs) cur =
     (if x = c then rev cur # split_acc c xs [] else split_acc c xs (x # cur))"

definition js_split :: "string \<Rightarrow> char \<Rightarrow> string list" where
  "js_split s c = split_acc c s []"

fun js_join :: "string list \<Rightarrow> string \<Rightarrow> string" where
  "js_join [] sep = []"
| "js_join [x] sep = x"
| "js_join (x # y # ys) sep = x @ sep @ js_join (y # ys) sep"

section \<open>Headings and PDF documents\<close>

text \<open>A heading record as \<open>extractHeadings\<close> builds it:
  \<open>{ level, text, id, pageNumber: null }\<close>.\<close>

record heading =
  heading_level :: int
  heading_text :: string
  heading_id :: string
  heading_pageNumber :: "int option"

text \<open>The heading array holds references to heading objects; the store maps a reference
  to the object it denotes.\<close>

type_synonym ref = nat
type_synonym store = "ref \<Rightarrow> heading"

text \<open>An error is a JavaScript \<open>Error\<close> with its message.\<close>

datatype error = Error string

datatype font = Helvetica | HelveticaBold

text \<open>What \<open>drawText\<close> is given: a string, or the decimal rendering of a number
  (\<open>estimatedPage.toString()\<close>), kept as the number.\<close>

datatype drawn = Str string | Num int

record text_op =
  op_text :: drawn
  op_x :: rat
  op_y :: rat
  op_size :: rat
  op_font :: font
  op_color :: "rat \<times> rat \<times> rat"

text \<open>A page of a pdf-lib document is either created by \<open>addPage()\<close>, and then carries the
  text drawn on it in drawing order, or holds content rendered elsewhere (a page of the browser's PDF).\<close>

datatype 'p page = NewPage "text_op list" | RenderedPage 'p

record 'p pdf_doc =
  doc_pages :: "'p page list"
  doc_title :: "string option"
  doc_author :: "string option"
  doc_subject :: "string option"
  doc_keywords :: "string list option"
  doc_creationDate :: "nat option"
  doc_modificationDate :: "nat option"

text \<open>A byte buffer either parses as a PDF document or does not; \<open>save\<close> serialises a
  document and \<open>load\<close> parses it back.\<close>

datatype 'p pdf_bytes = NotPdf | Serialized "'p pdf_doc"

definition load :: "'p pdf_bytes \<Rightarrow> error + 'p pdf_doc" where
  "load b = (case b of NotPdf \<Rightarrow> Inl (Error ''Failed to parse PDF document'')
                     | Serialized d \<Rightarrow> Inr d)"

definition save :: "'p pdf_doc \<Rightarrow> 'p pdf_bytes" where
  "save d = Serialized d"

definition create :: "'p pdf_doc" where
  "create = \<lparr>doc_pages = [], doc_title = None, doc_author = None, doc_subject = None,
             doc_keywords = None, doc_creationDate = None, doc_modificationDate = None\<rparr>"

definition getPageCount :: "'p pdf_doc \<Rightarrow> int" where
  "getPageCount d = int (length (doc_pages d))"

definition addPage :: "'p page list \<Rightarrow> 'p page list" where
  "addPage ps = ps @ [NewPage []]"

text \<open>\<open>page.drawText(text, options)\<close> on the page at position \<open>i\<close> of the document.  pdf-lib
  encodes the text with the font before it draws, and throws when the font's encoding
  (WinAnsi for the standard fonts) has no code for one of its characters.  The encoder is
  library code: \<open>enc f s\<close>, the error thrown for the text \<open>s\<close> in the font \<open>f\<close> if there is
  one, is a parameter.  The decimal rendering of a number has only digits and a minus sign,
  which WinAnsi encodes.\<close>

type_synonym encoder = "font \<Rightarrow> string \<Rightarrow> error option"

definition drawText :: "encoder \<Rightarrow> nat \<Rightarrow> text_op \<Rightarrow> 'p page list \<Rightarrow> error + 'p page list" where
  "drawText enc i t ps =
     (case (case op_text t of Str s \<Rightarrow> enc (op_font t) s | Num n \<Rightarrow> None) of
        Some e \<Rightarrow> Inl e
      | None \<Rightarrow>
          Inr (if i < length ps
               then (case ps ! i of NewPage ts \<Rightarrow> ps[i := NewPage (ts @ [t])]
                                  | RenderedPage p \<Rightarrow> ps)
               else ps))"

text \<open>\<open>tocPage.getSize()\<close>: the size pdf-lib gives a page added without arguments.  The
  library is not part of the repository, so the size is a parameter of \<open>addTOC\<close>;
  \<open>PageSizes_A4\<close> is the library's default.\<close>

record page_size =
  size_width :: rat
  size_height :: rat

definition PageSizes_A4 :: page_size where
  "PageSizes_A4 = \<lparr>size_width = 59528 / 100, size_height = 84189 / 100\<rparr>"

section \<open>addTOC\<close>

definition margin :: rat where
  "margin = 50"

definition currentPage :: int where
  "currentPage = 2"

text \<open>The handle \<open>tocPage\<close>: the first page of the new document.\<close>

definition tocPage :: nat where
  "tocPage = 0"

text \<open>The estimate of one heading:
  \<open>Math.min(currentPage + Math.floor(idx * pageEstimate / len), currentPage + pageEstimate - 1)\<close>.
  On integers \<open>Math.floor(a / b)\<close> with \<open>b > 0\<close> is the floor division \<open>a div b\<close>.\<close>

definition estimatedPage :: "int \<Rightarrow> int \<Rightarrow> int \<Rightarrow> int" where
  "estimatedPage idx pageEstimate len =
     min (currentPage + (idx * pageEstimate) div len) (currentPage + pageEstimate - 1)"

record 'p layout =
  lay_pages :: "'p page list"
  yPosition :: rat

text \<open>One iteration of \<open>for (const heading of headings)\<close>; \<open>Inl\<close> when a \<open>drawText\<close>
  throws.\<close>

definition addTOC_entry ::
  "page_size \<Rightarrow> encoder \<Rightarrow> store \<Rightarrow> ref list \<Rightarrow> int \<Rightarrow> 'p layout \<Rightarrow> ref
     \<Rightarrow> error + 'p layout" where
  "addTOC_entry sz enc st headings pageEstimate s heading =
     (let s1 = (if yPosition s < margin + 50
                then \<lparr>lay_pages = addPage (lay_pages s), yPosition = size_height sz - margin\<rparr>
                else s);
          indent = (heading_level (st heading) - 1) * 20;
          fontSize = (if heading_level (st heading) = 1 then 12 else 10);
          textFont = (if heading_level (st heading) = 1 then HelveticaBold else Helvetica);
          est = estimatedPage (indexOf headings heading) pageEstimate (int (length headings))
      in case drawText enc tocPage
                \<lparr>op_text = Str (take 60 (heading_text (st heading))
                                 @ (if length (heading_text (st heading)) > 60 then ''...'' else '''')),
                 op_x = margin + of_int indent, op_y = yPosition s1, op_size = fontSize,
                 op_font = textFont, op_color = (0, 0, 0)\<rparr> (lay_pages s1) of
           Inl e \<Rightarrow> Inl e
         | Inr p1 \<Rightarrow>
             (case drawText enc tocPage
                     \<lparr>op_text = Num est,
                      op_x = size_width sz - margin - 30, op_y = yPosition s1, op_size = fontSize,
                      op_font = Helvetica, op_color = (1 / 2, 1 / 2, 1 / 2)\<rparr> p1 of
                Inl e \<Rightarrow> Inl e
              | Inr p2 \<Rightarrow> Inr \<lparr>lay_pages = p2, yPosition = yPosition s1 - (fontSize + 8)\<rparr>))"

text \<open>The loop over the headings \<open>hs\<close> still to lay out; it ends at the first iteration
  that throws.\<close>

fun addTOC_entries ::
  "page_size \<Rightarrow> encoder \<Rightarrow> store \<Rightarrow> ref list \<Rightarrow> int \<Rightarrow> 'p layout \<Rightarrow> ref list
     \<Rightarrow> error + 'p layout" where
  "addTOC_entries sz enc st headings pageEstimate s [] = Inr s"
| "addTOC_entries sz enc st headings pageEstimate s (heading # hs) =
     (case addTOC_entry sz enc st headings pageEstimate s heading of
        Inl e \<Rightarrow> Inl e
      | Inr s' \<Rightarrow> addTOC_entries sz enc st headings pageEstimate s' hs)"

text \<open>The header block drawn on the first TOC page, and the cursor after it.\<close>

definition addTOC_header ::
  "page_size \<Rightarrow> encoder \<Rightarrow> string \<Rightarrow> string \<Rightarrow> string \<Rightarrow> error + 'p layout" where
  "addTOC_header sz enc archived title url =
     (let ps0 = addPage [];
          y0 = size_height sz - margin;
          y1 = y0 - 40;
          y2 = y1 - 10;
          y3 = y2 - 10;
          y4 = y3 - 30
      in case drawText enc tocPage
                \<lparr>op_text = Str ''Table of Contents'', op_x = margin, op_y = y0, op_size = 24,
                 op_font = HelveticaBold, op_color = (0, 0, 0)\<rparr> ps0 of
           Inl e \<Rightarrow> Inl e
         | Inr ps1 \<Rightarrow>
        (case drawText enc tocPage
                \<lparr>op_text = Str title, op_x = margin, op_y = y1, op_size = 14,
                 op_font = Helvetica, op_color = (3 / 10, 3 / 10, 3 / 10)\<rparr> ps1 of
           Inl e \<Rightarrow> Inl e
         | Inr ps2 \<Rightarrow>
        (case drawText enc tocPage
                \<lparr>op_text = Str (take 70 url @ (if length url > 70 then ''...'' else '''')),
                 op_x = margin, op_y = y2, op_size = 10,
                 op_font = Helvetica, op_color = (4 / 10, 4 / 10, 7 / 10)\<rparr> ps2 of
           Inl e \<Rightarrow> Inl e
         | Inr ps3 \<Rightarrow>
        (case drawText enc tocPage
                \<lparr>op_text = Str (''Archived: '' @ archived), op_x = margin, op_y = y3,
                 op_size = 10, op_font = Helvetica, op_color = (1 / 2, 1 / 2, 1 / 2)\<rparr> ps3 of
           Inl e \<Rightarrow> Inl e
         | Inr ps4 \<Rightarrow> Inr \<lparr>lay_pages = ps4, yPosition = y4\<rparr>))))"

text \<open>\<open>addTOC(pdfBuffer, headings, title, url)\<close>.  \<open>archived\<close> is the formatted date of
  \<open>new Date()\<close> and \<open>now\<close> its time stamp.  It throws when the buffer does not parse and
  when a \<open>drawText\<close> throws.\<close>

definition addTOC ::
  "page_size \<Rightarrow> encoder \<Rightarrow> string \<Rightarrow> nat \<Rightarrow> store \<Rightarrow> 'p pdf_bytes \<Rightarrow> ref list
     \<Rightarrow> string \<Rightarrow> string \<Rightarrow> error + 'p pdf_bytes" where
  "addTOC sz enc archived now st pdfBuffer headings title url =
     (case load pdfBuffer of
        Inl e \<Rightarrow> Inl e
      | Inr existingPdfDoc \<Rightarrow>
          (case addTOC_header sz enc archived title url of
             Inl e \<Rightarrow> Inl e
           | Inr s0 \<Rightarrow>
               (case addTOC_entries sz enc st headings (getPageCount existingPdfDoc) s0 headings of
                  Inl e \<Rightarrow> Inl e
                | Inr s \<Rightarrow>
                    Inr (save
                      \<lparr>doc_pages = lay_pages s @ doc_pages existingPdfDoc,
                       doc_title = Some (title @ '' - Offline Archive''),
                       doc_author = Some ''Blog Archiver'',
                       doc_subject = Some (''Archived from: '' @ url),
                       doc_keywords = Some [''blog'', ''archive'', ''offline'',
                                            js_join (take 5 (js_split title CHR '' '')) '', ''],
                       doc_creationDate = Some now,
                       doc_modificationDate = Some now\<rparr>))))"

section \<open>Viewport detection\<close>

text \<open>What the probe of \<open>detectOptimalViewport\<close> reads from the rendered document:
  for a selector, the first matching element's \<open>getBoundingClientRect().width\<close> and its
  computed left and right margins; the width of the body's rectangle; the right edge of
  every element, in document order; and the scroll widths of body and root element.\<close>

record element_box =
  rect_width :: rat
  marginLeft :: rat
  marginRight :: rat

record geometry =
  geo_querySelector :: "string \<Rightarrow> element_box option"
  geo_bodyWidth :: rat
  geo_rights :: "rat list"
  geo_bodyScrollWidth :: int
  geo_htmlScrollWidth :: int

record dimensions =
  contentWidth :: int
  documentWidth :: int
  scrollWidth :: int
  recommendedWidth :: int

definition selectors :: "string list" where
  "selectors = [''article'', ''main'', ''.content'', ''.post'', ''.entry-content'',
     ''.article-content'', ''.blog-post'', ''.post-content'', ''#content'',
     ''[role=\"main\"]'', ''.container'', ''.wrapper'']"

text \<open>The loop over the selectors; its state is whether \<open>contentElement\<close> is set, and
  \<open>maxWidth\<close>.\<close>

definition probe_selector :: "geometry \<Rightarrow> bool \<times> rat \<Rightarrow> string \<Rightarrow> bool \<times> rat" where
  "probe_selector g s selector =
     (case geo_querySelector g selector of
        None \<Rightarrow> s
      | Some element \<Rightarrow>
          (let totalWidth = rect_width element + marginLeft element + marginRight element
           in if totalWidth > snd s then (True, totalWidth) else s))"

definition content_maxWidth :: "geometry \<Rightarrow> rat" where
  "content_maxWidth g =
     (let s = foldl (probe_selector g) (False, 0) selectors
      in if \<not> fst s then geo_bodyWidth g else snd s)"

definition overflow_documentWidth :: "geometry \<Rightarrow> rat" where
  "overflow_documentWidth g =
     foldl (\<lambda>documentWidth right. if right > documentWidth then right else documentWidth)
       (content_maxWidth g) (geo_rights g)"

text \<open>The object the probe returns.\<close>

definition detect_dimensions :: "geometry \<Rightarrow> dimensions" where
  "detect_dimensions g =
     \<lparr>contentWidth = \<lceil>content_maxWidth g\<rceil>,
      documentWidth = \<lceil>overflow_documentWidth g\<rceil>,
      scrollWidth = max (geo_bodyScrollWidth g) (geo_htmlScrollWidth g),
      recommendedWidth = min 1400 (max 768 \<lceil>overflow_documentWidth g * (105 / 100)\<rceil>)\<rparr>"

text \<open>The formula of the specification, for comparison: the clamp of the padded maximum
  of content width, largest right edge and scroll width.\<close>

definition spec_recommendedWidth :: "geometry \<Rightarrow> int" where
  "spec_recommendedWidth g =
     min 1400 (max 768
       \<lceil>Max (set ([content_maxWidth g] @ geo_rights g
                  @ [of_int (max (geo_bodyScrollWidth g) (geo_htmlScrollWidth g))]))
          * (105 / 100)\<rceil>)"

section \<open>The archiver\<close>

text \<open>\<open>parseInt(s)\<close> without a radix: leading white space (the ASCII white space
  characters), an optional sign, an optional \<open>0x\<close> prefix, then the longest run of digits;
  \<open>None\<close> is \<open>NaN\<close>.  The value is the exact integer, as it is in JavaScript below
  \<open>2 ^ 53\<close>.\<close>

definition isWhiteSpace :: "char \<Rightarrow> bool" where
  "isWhiteSpace c = (c \<in> set [CHR '' '', CHR 0x09, CHR 0x0A, CHR 0x0B, CHR 0x0C, CHR 0x0D])"

definition digitValue :: "char \<Rightarrow> nat" where
  "digitValue c =
     (let n = of_char c :: nat
      in if 48 \<le> n \<and> n \<le> 57 then n - 48
         else if 97 \<le> n \<and> n \<le> 122 then n - 87
         else if 65 \<le> n \<and> n \<le> 90 then n - 55
         else 36)"

definition parseInt :: "string \<Rightarrow> int option" where
  "parseInt s =
     (let s1 = dropWhile isWhiteSpace s;
          sign = (if take 1 s1 = ''-'' then - 1 else 1 :: int);
          s2 = (if take 1 s1 = ''-'' \<or> take 1 s1 = ''+'' then drop 1 s1 else s1);
          hex = (take 2 s2 = ''0x'' \<or> take 2 s2 = ''0X'');
          radix = (if hex then 16 else 10 :: nat);
          s3 = (if hex then drop 2 s2 else s2);
          ds = takeWhile (\<lambda>c. digitValue c < radix) s3
      in if ds = [] then None
         else Some (sign * int (foldl (\<lambda>a c. a * radix + digitValue c) 0 ds)))"

text \<open>\<open>this.viewportWidth\<close> is the string \<open>'auto'\<close> or a number.\<close>

datatype viewport_width = Auto | Width int

text \<open>The archiver object together with the width of its page's current viewport.\<close>

record archiver =
  viewportWidth :: viewport_width
  fullPage :: bool
  page_viewport :: int

text \<open>\<open>new BlogArchiver(options)\<close> followed by \<open>init()\<close>.  In
  \<open>parseInt(options.width) || 'auto'\<close> both \<open>NaN\<close> and \<open>0\<close> give \<open>'auto'\<close>.\<close>

definition constructor_viewportWidth :: "string option \<Rightarrow> viewport_width" where
  "constructor_viewportWidth width =
     (if width = Some ''auto'' then Auto
      else (case width of
              None \<Rightarrow> Auto
            | Some s \<Rightarrow> (case parseInt s of
                           None \<Rightarrow> Auto
                         | Some n \<Rightarrow> if n = 0 then Auto else Width n)))"

definition init :: "string option \<Rightarrow> bool \<Rightarrow> archiver" where
  "init width full =
     (let vw = constructor_viewportWidth width;
          initialWidth = (case vw of Auto \<Rightarrow> 1280 | Width n \<Rightarrow> n)
      in \<lparr>viewportWidth = vw, fullPage = full, page_viewport = initialWidth\<rparr>)"

text \<open>The collaborators of a run: the browser (navigation and measurement, heading
  extraction, title, styled render to PDF, each of which may throw), the file system, the
  PDF library's page size and text encoder, the clock, the URL parser, and whether creating
  the output directory or launching the browser fails.\<close>

record 'p world =
  w_measure :: "string \<Rightarrow> error + geometry"
  w_extractHeadings :: "int \<Rightarrow> string \<Rightarrow> error + ref list"
  w_store :: store
  w_title :: "string \<Rightarrow> string"
  w_pdf :: "int \<Rightarrow> bool \<Rightarrow> string \<Rightarrow> error + 'p pdf_bytes"
  w_writeFile :: "string \<Rightarrow> error option"
  w_pageSize :: page_size
  w_encode :: encoder
  w_archived :: string
  w_now :: nat
  w_setup :: "error option"
  w_isUrl :: "string \<Rightarrow> bool"
  w_hostname :: "string \<Rightarrow> string"
  w_timestamp :: "nat \<Rightarrow> string"

text \<open>What a run does to the outside, in order.\<close>

datatype 'p event =
    SetViewport int
  | Detect string
  | ExtractHeadings string int
  | Pdf string int
  | WriteFile string "'p pdf_bytes"

definition detectOptimalViewport ::
  "'p world \<Rightarrow> archiver \<Rightarrow> string \<Rightarrow> (error + int) \<times> archiver \<times> 'p event list" where
  "detectOptimalViewport w a url =
     (let a1 = a\<lparr>page_viewport := 1920\<rparr>;
          ev = [SetViewport 1920, Detect url]
      in case w_measure w url of
           Inl e \<Rightarrow> (Inl e, a1, ev)
         | Inr g \<Rightarrow> (Inr (recommendedWidth (detect_dimensions g)), a1, ev))"

text \<open>The bytes \<open>generatePDFWithTOC\<close> writes: the composed document if headings exist,
  the content buffer itself otherwise.\<close>

definition output_bytes ::
  "'p world \<Rightarrow> 'p pdf_bytes \<Rightarrow> ref list \<Rightarrow> string \<Rightarrow> string \<Rightarrow> error + 'p pdf_bytes" where
  "output_bytes w pdfBuffer headings pageTitle url =
     (if length headings > 0
      then addTOC (w_pageSize w) (w_encode w) (w_archived w) (w_now w) (w_store w) pdfBuffer
             headings pageTitle url
      else Inr pdfBuffer)"

text \<open>\<open>generatePDFWithTOC\<close> after the viewport has been settled.\<close>

definition render_job ::
  "'p world \<Rightarrow> archiver \<Rightarrow> string \<Rightarrow> string \<Rightarrow> (error + string) \<times> 'p event list" where
  "render_job w a url outputPath =
     (case w_extractHeadings w (page_viewport a) url of
        Inl e \<Rightarrow> (Inl e, [ExtractHeadings url (page_viewport a)])
      | Inr headings \<Rightarrow>
          (case w_pdf w (page_viewport a) (fullPage a) url of
             Inl e \<Rightarrow> (Inl e, [ExtractHeadings url (page_viewport a)])
           | Inr pdfBuffer \<Rightarrow>
               (let ev = [ExtractHeadings url (page_viewport a), Pdf url (page_viewport a)]
                in case output_bytes w pdfBuffer headings (w_title w url) url of
                     Inl e \<Rightarrow> (Inl e, ev)
                   | Inr bytes \<Rightarrow>
                       (case w_writeFile w outputPath of
                          Some e \<Rightarrow> (Inl e, ev)
                        | None \<Rightarrow> (Inr outputPath, ev @ [WriteFile outputPath bytes])))))"

definition generatePDFWithTOC ::
  "'p world \<Rightarrow> archiver \<Rightarrow> string \<Rightarrow> string \<Rightarrow> (error + string) \<times> archiver \<times> 'p event list" where
  "generatePDFWithTOC w a url outputPath =
     (if viewportWidth a = Width 1280 \<or> viewportWidth a = Auto
      then (case detectOptimalViewport w a url of
              (Inl e, a1, ev) \<Rightarrow> (Inl e, a1, ev)
            | (Inr optimalWidth, a1, ev) \<Rightarrow>
                (let a2 = a1\<lparr>viewportWidth := Width optimalWidth, page_viewport := optimalWidth\<rparr>;
                     (r, ev') = render_job w a2 url outputPath
                 in (r, a2, ev @ [SetViewport optimalWidth] @ ev')))
      else (let (r, ev') = render_job w a url outputPath in (r, a, ev')))"

section \<open>The batch loop\<close>

datatype result = Success string string | Failed string string



definition outputPath_of :: "'p world \<Rightarrow> string \<Rightarrow> nat \<Rightarrow> string \<Rightarrow> string" where
  "outputPath_of w outputDir i url =
     outputDir @ ''/'' @ map (\<lambda>c. if c = CHR ''.'' then CHR ''_'' else c) (w_hostname w url)
       @ ''_'' @ w_timestamp w i @ ''.pdf''"

text \<open>\<open>for (let i = 0; i < validUrls.length; i++)\<close> with its \<open>try\<close>/\<open>catch\<close>, from
  index \<open>i\<close> on; \<open>urls\<close> are the URLs not yet processed.\<close>

fun process_urls ::
  "'p world \<Rightarrow> string \<Rightarrow> archiver \<Rightarrow> nat \<Rightarrow> string list
     \<Rightarrow> result list \<times> archiver \<times> 'p event list" where
  "process_urls w outputDir a i [] = ([], a, [])"
| "process_urls w outputDir a i (url # urls) =
     (let outputPath = outputPath_of w outputDir i url;
          (r, a1, ev) = generatePDFWithTOC w a url outputPath;
          res = (case r of
                   Inr p \<Rightarrow> Success url outputPath
                 | Inl (Error message) \<Rightarrow> Failed url message);
          (rs, a2, ev') = process_urls w outputDir a1 (Suc i) urls
      in (res # rs, a2, ev @ ev'))"



section \<open>The extension popup\<close>

record tab =
  tab_url :: "string option"
  tab_title :: "string option"

datatype popup_effect =
    ShowStatus string string
  | SetGenerating bool
  | SendMessage string string "string option"

text \<open>The click handler of \<open>generate-btn\<close> up to the dispatch of the message.
  \<open>thrown\<close> is the message of the error \<open>sendMessage\<close> throws, if it throws.\<close>

definition generate_click :: "tab option \<Rightarrow> string option \<Rightarrow> popup_effect list" where
  "generate_click t thrown =
     (case t of
        None \<Rightarrow> [ShowStatus ''No active tab found'' ''error'']
      | Some tb \<Rightarrow>
          (case tab_url tb of
             None \<Rightarrow> [ShowStatus ''Cannot generate PDF for this page'' ''error'']
           | Some u \<Rightarrow>
               if u = [] \<or> startsWith u ''chrome://'' \<or> startsWith u ''edge://''
               then [ShowStatus ''Cannot generate PDF for this page'' ''error'']
               else [SetGenerating True, ShowStatus ''Preparing PDF generation...'' ''info'',
                     SendMessage ''generatePDF'' u (tab_title tb)]
                    @ (case thrown of
                         None \<Rightarrow> []
                       | Some m \<Rightarrow> [SetGenerating False,
                                    ShowStatus (''An error occurred: '' @ m) ''error''])))"

section \<open>Observations and sample inputs\<close>

text \<open>The text drawn on a page, the page numbers among it and the strings among it.\<close>

fun page_ops :: "'p page \<Rightarrow> text_op list" where
  "page_ops (NewPage ts) = ts"
| "page_ops (RenderedPage p) = []"

fun numbers_of :: "text_op list \<Rightarrow> int list" where
  "numbers_of [] = []"
| "numbers_of (t # ts) =
     (case op_text t of Num n \<Rightarrow> n # numbers_of ts | Str s \<Rightarrow> numbers_of ts)"

fun strings_of :: "text_op list \<Rightarrow> string list" where
  "strings_of [] = []"
| "strings_of (t # ts) =
     (case op_text t of Str s \<Rightarrow> s # strings_of ts | Num n \<Rightarrow> strings_of ts)"

text \<open>The text \<open>addTOC\<close> draws for a heading.\<close>

definition entry_text :: "store \<Rightarrow> ref \<Rightarrow> string" where
  "entry_text st h =
     take 60 (heading_text (st h)) @ (if length (heading_text (st h)) > 60 then ''...'' else '''')"

text \<open>The layout when the loop reaches the heading at position \<open>i\<close> (\<open>Inl\<close> if a
  \<open>drawText\<close> threw before), and its page count and cursor.\<close>

definition layout_before ::
  "page_size \<Rightarrow> encoder \<Rightarrow> string \<Rightarrow> store \<Rightarrow> ref list \<Rightarrow> int \<Rightarrow> string \<Rightarrow> string \<Rightarrow> nat
     \<Rightarrow> error + 'p layout" where
  "layout_before sz enc archived st headings pageEstimate title url i =
     (case addTOC_header sz enc archived title url of
        Inl e \<Rightarrow> Inl e
      | Inr s0 \<Rightarrow> addTOC_entries sz enc st headings pageEstimate s0 (take i headings))"

fun cursor_of :: "error + 'p layout \<Rightarrow> (nat \<times> rat) option" where
  "cursor_of (Inl e) = None"
| "cursor_of (Inr s) = Some (length (lay_pages s), yPosition s)"

text \<open>Two headings, \<open>Intro\<close> at level 1 and \<open>Details\<close> at level 2, over a content
  document of three pages.\<close>

definition intro_store :: store where
  "intro_store r =
     (if r = 0
      then \<lparr>heading_level = 1, heading_text = ''Intro'', heading_id = ''heading-0'',
            heading_pageNumber = None\<rparr>
      else \<lparr>heading_level = 2, heading_text = ''Details'', heading_id = ''heading-1'',
            heading_pageNumber = None\<rparr>)"

definition content_doc :: "nat \<Rightarrow> nat pdf_doc" where
  "content_doc n = create\<lparr>doc_pages := map RenderedPage [0..<n]\<rparr>"

text \<open>Thirty-three level-1 headings, all with the same text.\<close>

definition level1_store :: store where
  "level1_store r = \<lparr>heading_level = 1, heading_text = ''Chapter'', heading_id = ''chapter'',
                      heading_pageNumber = None\<rparr>"

definition long_headings :: "ref list" where
  "long_headings = [0..<33]"

text \<open>The pages of the document a composition returned (none if it failed), and what its
  first page shows.\<close>

fun result_pages :: "error + 'p pdf_bytes \<Rightarrow> 'p page list" where
  "result_pages (Inr (Serialized d)) = doc_pages d"
| "result_pages (Inr NotPdf) = []"
| "result_pages (Inl e) = []"

definition toc_numbers :: "error + 'p pdf_bytes \<Rightarrow> int list" where
  "toc_numbers r = (case result_pages r of [] \<Rightarrow> [] | p # ps \<Rightarrow> numbers_of (page_ops p))"


text \<open>The pages \<open>addTOC\<close> allocates with \<open>addPage()\<close> for given inputs, as they are when
  the loop ends (none if a \<open>drawText\<close> threw).\<close>

fun layout_pages :: "error + 'p layout \<Rightarrow> 'p page list" where
  "layout_pages (Inl e) = []"
| "layout_pages (Inr s) = lay_pages s"

definition toc_pages ::
  "page_size \<Rightarrow> encoder \<Rightarrow> string \<Rightarrow> store \<Rightarrow> ref list \<Rightarrow> int \<Rightarrow> string \<Rightarrow> string
     \<Rightarrow> 'p page list" where
  "toc_pages sz enc archived st headings pageEstimate title url =
     layout_pages (layout_before sz enc archived st headings pageEstimate title url
                     (length headings))"

text \<open>The page count and cursor of the layout alone: what one iteration of the loop does
  to them.\<close>

definition cursor_entry :: "page_size \<Rightarrow> store \<Rightarrow> nat \<times> rat \<Rightarrow> ref \<Rightarrow> nat \<times> rat" where
  "cursor_entry sz st c heading =
     (let c1 = (if snd c < margin + 50 then (Suc (fst c), size_height sz - margin) else c);
          fontSize = (if heading_level (st heading) = 1 then 12 else 10)
      in (fst c1, snd c1 - (fontSize + 8)))"

text \<open>A title of 71 characters.\<close>

definition long_title :: string where
  "long_title = ''An unusually long title for a post about archiving blogs for reading it''"

text \<open>An encoder that accepts the printable ASCII characters in both fonts.\<close>

definition printable_ascii :: encoder where
  "printable_ascii f s =
     (if list_all (\<lambda>c. 32 \<le> (of_char c :: nat) \<and> (of_char c :: nat) \<le> 126) s then None
      else Some (Error ''WinAnsi cannot encode''))"

text \<open>The array of distinct heading objects for a sequence of heading records: the object
  of the record at position \<open>i\<close> has the reference \<open>i\<close>.\<close>

definition array_refs :: "heading list \<Rightarrow> ref list" where
  "array_refs hs = [0..<length hs]"

definition array_store :: "heading list \<Rightarrow> store" where
  "array_store hs r =
     (if r < length hs then hs ! r
      else \<lparr>heading_level = 1, heading_text = [], heading_id = [], heading_pageNumber = None\<rparr>)"

definition intro_headings :: "heading list" where
  "intro_headings =
     [\<lparr>heading_level = 1, heading_text = ''Intro'', heading_id = ''heading-0'',
       heading_pageNumber = None\<rparr>,
      \<lparr>heading_level = 2, heading_text = ''Details'', heading_id = ''heading-1'',
       heading_pageNumber = None\<rparr>]"

text \<open>A world in which every URL navigates and renders to a three-page document with the
  two headings above; \<open>https://narrow.example/\<close> measures 800 pixels wide and every other
  URL 1000, except that \<open>https://slow.example/\<close> never reaches network idle.\<close>

definition sample_geometry :: geometry where
  "sample_geometry =
     \<lparr>geo_querySelector = (\<lambda>s. if s = ''article''
          then Some \<lparr>rect_width = 900, marginLeft = 20, marginRight = 20\<rparr> else None),
      geo_bodyWidth = 1000, geo_rights = [1000, 1000, 960],
      geo_bodyScrollWidth = 1000, geo_htmlScrollWidth = 1000\<rparr>"

definition narrow_geometry :: geometry where
  "narrow_geometry =
     \<lparr>geo_querySelector = (\<lambda>s. None),
      geo_bodyWidth = 800, geo_rights = [800, 800, 640],
      geo_bodyScrollWidth = 800, geo_htmlScrollWidth = 800\<rparr>"

definition sample_world :: "nat world" where
  "sample_world =
     \<lparr>w_measure = (\<lambda>url. if url = ''https://slow.example/''
          then Inl (Error ''Navigation timeout of 60000 ms exceeded'')
          else if url = ''https://narrow.example/''
          then Inr narrow_geometry else Inr sample_geometry),
      w_extractHeadings = (\<lambda>width url. if url = ''https://slow.example/''
          then Inl (Error ''Navigation timeout of 60000 ms exceeded'') else Inr [0, 1]),
      w_store = intro_store,
      w_title = (\<lambda>url. ''Post''),
      w_pdf = (\<lambda>width full url. Inr (Serialized (content_doc 3))),
      w_writeFile = (\<lambda>path. None),
      w_pageSize = PageSizes_A4,
      w_encode = printable_ascii,
      w_archived = ''November 3, 2026'',
      w_now = 0,
      w_setup = None,
      w_isUrl = (\<lambda>s. startsWith s ''https://''),
      w_hostname = (\<lambda>url. takeWhile (\<lambda>c. c \<noteq> CHR ''/'') (drop 8 url)),
      w_timestamp = (\<lambda>i. ''2026-11-03T08-56-00'')\<rparr>"

text \<open>A document whose root element is 800 pixels wide in the 1920 pixel viewport: no
  content container matches, body and every element end at 800, and the root's scroll width
  is that of the viewport.\<close>

definition fixed_width_geometry :: geometry where
  "fixed_width_geometry =
     \<lparr>geo_querySelector = (\<lambda>s. None),
      geo_bodyWidth = 800, geo_rights = [800, 800],
      geo_bodyScrollWidth = 800, geo_htmlScrollWidth = 1920\<rparr>"

text \<open>Tabs on a browser-internal page and on a web page.\<close>

definition internal_tab :: tab where
  "internal_tab = \<lparr>tab_url = Some ''chrome://extensions/'', tab_title = Some ''Extensions''\<rparr>"

definition web_tab :: tab where
  "web_tab = \<lparr>tab_url = Some ''https://blog.example/post'', tab_title = Some ''Post''\<rparr>"

text \<open>The events of a run without the file writes.\<close>

fun is_write :: "'p event \<Rightarrow> bool" where
  "is_write (WriteFile path bytes) = True"
| "is_write (SetViewport v) = False"
| "is_write (Detect url) = False"
| "is_write (ExtractHeadings url v) = False"
| "is_write (Pdf url v) = False"

definition browser_events :: "'p event list \<Rightarrow> 'p event list" where
  "browser_events evs = filter (\<lambda>e. \<not> is_write e) evs"

text \<open>An event of a job that neither measures nor changes the viewport and that extracts
  and renders at width \<open>n\<close>.\<close>

fun manual_event :: "int \<Rightarrow> 'p event \<Rightarrow> bool" where
  "manual_event n (SetViewport v) = False"
| "manual_event n (Detect url) = False"
| "manual_event n (ExtractHeadings url v) = (v = n)"
| "manual_event n (Pdf url v) = (v = n)"
| "manual_event n (WriteFile path bytes) = True"


text \<open>The record the loop pushes for the job at index \<open>i\<close>, run from archiver \<open>a\<close>.\<close>

definition job_result :: "'p world \<Rightarrow> string \<Rightarrow> archiver \<Rightarrow> nat \<Rightarrow> string \<Rightarrow> result" where
  "job_result w outputDir a i url =
     (case fst (generatePDFWithTOC w a url (outputPath_of w outputDir i url)) of
        Inr p \<Rightarrow> Success url (outputPath_of w outputDir i url)
      | Inl (Error message) \<Rightarrow> Failed url message)"

section \<open>Lemmas on the primitives and the layout loop\<close>

lemma numbers_of_append: "numbers_of (xs @ ys) = numbers_of xs @ numbers_of ys"
  by (induction xs) (auto split: drawn.splits)

lemma strings_of_append: "strings_of (xs @ ys) = strings_of xs @ strings_of ys"
  by (induction xs) (auto split: drawn.splits)

lemma length_ops: "length ts = length (numbers_of ts) + length (strings_of ts)"
  by (induction ts) (auto split: drawn.splits)

lemma indexOf_from_nth:
  "distinct xs \<Longrightarrow> i < length xs \<Longrightarrow> indexOf_from xs (xs ! i) k = k + int i"
proof (induction xs arbitrary: i k)
  case Nil
  then show ?case by simp
next
  case (Cons y ys)
  show ?case
  proof (cases i)
    case 0
    then show ?thesis by simp
  next
    case (Suc j)
    with Cons.prems have "ys ! j \<noteq> y" by auto
    with Cons Suc show ?thesis by simp
  qed
qed

lemma indexOf_nth: "distinct xs \<Longrightarrow> i < length xs \<Longrightarrow> indexOf xs (xs ! i) = int i"
  by (simp add: indexOf_def indexOf_from_nth)

text \<open>When \<open>drawText\<close> returns, the text is appended to the first page; it returns for a
  number, and for a string exactly when the encoder accepts it.\<close>

lemma drawText_Str:
  "drawText enc tocPage
     \<lparr>op_text = Str s, op_x = x, op_y = y, op_size = z, op_font = f, op_color = c\<rparr>
     (NewPage ts # rest)
   = (case enc f s of
        Some e \<Rightarrow> Inl e
      | None \<Rightarrow> Inr (NewPage (ts @ [\<lparr>op_text = Str s, op_x = x, op_y = y, op_size = z,
                                     op_font = f, op_color = c\<rparr>]) # rest))"
  by (simp add: drawText_def tocPage_def split: option.splits)

lemma drawText_Num:
  "drawText enc tocPage
     \<lparr>op_text = Num n, op_x = x, op_y = y, op_size = z, op_font = f, op_color = c\<rparr>
     (NewPage ts # rest)
   = Inr (NewPage (ts @ [\<lparr>op_text = Num n, op_x = x, op_y = y, op_size = z,
                          op_font = f, op_color = c\<rparr>]) # rest)"
  by (simp add: drawText_def tocPage_def)

lemma addTOC_entry_pages:
  assumes "lay_pages s = NewPage ts # rest"
    and "addTOC_entry sz enc st headings P s h = Inr s'"
  shows "\<exists>t1 t2 extra.
     lay_pages s' = NewPage (ts @ [t1, t2]) # rest @ extra
     \<and> op_text t2 = Num (estimatedPage (indexOf headings h) P (int (length headings)))
     \<and> op_text t1 = Str (entry_text st h)
     \<and> (extra = [] \<or> extra = [NewPage []])"
  using assms
  by (auto simp: addTOC_entry_def Let_def addPage_def drawText_Str drawText_Num entry_text_def
      split: if_splits option.splits)

lemma addTOC_entry_ok:
  assumes "lay_pages s = NewPage ts # rest"
    and "\<forall>f. enc f (entry_text st h) = None"
  shows "\<exists>s'. addTOC_entry sz enc st headings P s h = Inr s'"
  using assms
  by (simp add: addTOC_entry_def Let_def addPage_def drawText_Str drawText_Num entry_text_def)

lemma addTOC_entries_pages:
  "lay_pages s = NewPage ts # rest \<Longrightarrow>
   addTOC_entries sz enc st headings P s hs = Inr s' \<Longrightarrow>
   \<exists>ts' k. lay_pages s' = NewPage (ts @ ts') # rest @ replicate k (NewPage [])
     \<and> numbers_of ts' = map (\<lambda>h. estimatedPage (indexOf headings h) P (int (length headings))) hs
     \<and> strings_of ts' = map (entry_text st) hs"
proof (induction hs arbitrary: s ts rest)
  case Nil
  then show ?case by simp
next
  case (Cons h hs)
  from Cons.prems(2) obtain s1 where
    s1: "addTOC_entry sz enc st headings P s h = Inr s1"
    and rec: "addTOC_entries sz enc st headings P s1 hs = Inr s'"
    by (auto split: sum.splits)
  from addTOC_entry_pages [OF Cons.prems(1) s1]
  obtain t1 t2 extra where
    e: "lay_pages s1 = NewPage (ts @ [t1, t2]) # rest @ extra"
    and n: "op_text t2 = Num (estimatedPage (indexOf headings h) P (int (length headings)))"
    and t: "op_text t1 = Str (entry_text st h)"
    and x: "extra = [] \<or> extra = [NewPage []]"
    by blast
  from Cons.IH [OF e rec] obtain ts' k where
    f: "lay_pages s' = NewPage ((ts @ [t1, t2]) @ ts') # (rest @ extra) @ replicate k (NewPage [])"
    and n': "numbers_of ts' = map (\<lambda>h. estimatedPage (indexOf headings h) P (int (length headings))) hs"
    and t': "strings_of ts' = map (entry_text st) hs"
    by blast
  from x obtain k' where k': "extra @ replicate k (NewPage []) = replicate k' (NewPage [])"
  proof
    assume "extra = []" then show ?thesis using that [of k] by simp
  next
    assume "extra = [NewPage []]" then show ?thesis using that [of "Suc k"] by simp
  qed
  have "lay_pages s' = NewPage (ts @ ([t1, t2] @ ts')) # rest @ replicate k' (NewPage [])"
    using f k' by simp
  moreover have "numbers_of ([t1, t2] @ ts')
      = map (\<lambda>h. estimatedPage (indexOf headings h) P (int (length headings))) (h # hs)"
    using n t n' by simp
  moreover have "strings_of ([t1, t2] @ ts') = map (entry_text st) (h # hs)"
    using n t t' by simp
  ultimately show ?case by blast
qed

lemma addTOC_entries_ok:
  "lay_pages s = NewPage ts # rest \<Longrightarrow>
   \<forall>h \<in> set hs. \<forall>f. enc f (entry_text st h) = None \<Longrightarrow>
   \<exists>s'. addTOC_entries sz enc st headings P s hs = Inr s'"
proof (induction hs arbitrary: s ts rest)
  case Nil
  then show ?case by simp
next
  case (Cons h hs)
  have "\<forall>f. enc f (entry_text st h) = None" using Cons.prems(2) by simp
  with Cons.prems(1) have "\<exists>s1. addTOC_entry sz enc st headings P s h = Inr s1"
    by (rule addTOC_entry_ok)
  then obtain s1 where s1: "addTOC_entry sz enc st headings P s h = Inr s1" by blast
  from addTOC_entry_pages [OF Cons.prems(1) s1]
  obtain ts1 rest1 where e: "lay_pages s1 = NewPage ts1 # rest1" by blast
  have "\<forall>h \<in> set hs. \<forall>f. enc f (entry_text st h) = None" using Cons.prems(2) by simp
  from Cons.IH [OF e this] s1 show ?case by simp
qed

lemma addTOC_header_pages:
  assumes "addTOC_header sz enc archived title url = Inr s0"
  shows "\<exists>ts. lay_pages s0 = [NewPage ts]
     \<and> yPosition s0 = size_height sz - 140
     \<and> numbers_of ts = []
     \<and> strings_of ts = [''Table of Contents'', title,
          take 70 url @ (if length url > 70 then ''...'' else ''''), ''Archived: '' @ archived]"
  using assms
  by (auto simp: addTOC_header_def Let_def addPage_def drawText_Str margin_def
      split: option.splits)

lemma addTOC_header_ok:
  assumes "enc HelveticaBold ''Table of Contents'' = None"
    and "enc Helvetica title = None"
    and "enc Helvetica (take 70 url @ (if length url > 70 then ''...'' else '''')) = None"
    and "enc Helvetica (''Archived: '' @ archived) = None"
  shows "\<exists>s0. addTOC_header sz enc archived title url = Inr s0"
  using assms by (simp add: addTOC_header_def Let_def addPage_def drawText_Str)

text \<open>The shape of the document \<open>addTOC\<close> returns, when it returns: a first page with
  header and entries, blank overflow pages, then the content pages.\<close>

lemma addTOC_shape:
  assumes "addTOC sz enc archived now st (pdfBuffer :: 'p pdf_bytes) headings title url = Inr bytes"
    and "load pdfBuffer = Inr content"
  shows "\<exists>out ts k.
     bytes = Serialized out
     \<and> doc_pages out = NewPage ts # replicate k (NewPage []) @ doc_pages content
     \<and> numbers_of ts = map (\<lambda>h. estimatedPage (indexOf headings h) (getPageCount content)
                                   (int (length headings))) headings
     \<and> strings_of ts = [''Table of Contents'', title,
          take 70 url @ (if length url > 70 then ''...'' else ''''), ''Archived: '' @ archived]
          @ map (entry_text st) headings
     \<and> toc_pages sz enc archived st headings (getPageCount content) title url
         = (NewPage ts # replicate k (NewPage []) :: 'p page list)"
proof -
  from assms obtain s0 s :: "'p layout" where
    h: "addTOC_header sz enc archived title url = Inr s0"
    and l: "addTOC_entries sz enc st headings (getPageCount content) s0 headings = Inr s"
    and b: "bytes = Serialized
              \<lparr>doc_pages = lay_pages s @ doc_pages content,
               doc_title = Some (title @ '' - Offline Archive''),
               doc_author = Some ''Blog Archiver'',
               doc_subject = Some (''Archived from: '' @ url),
               doc_keywords = Some [''blog'', ''archive'', ''offline'',
                                    js_join (take 5 (js_split title CHR '' '')) '', ''],
               doc_creationDate = Some now,
               doc_modificationDate = Some now\<rparr>"
    by (auto simp: addTOC_def save_def split: sum.splits)
  from addTOC_header_pages [OF h] obtain ts0 where
    p0: "lay_pages s0 = NewPage ts0 # []"
    and hn: "numbers_of ts0 = []"
    and hs: "strings_of ts0 = [''Table of Contents'', title,
          take 70 url @ (if length url > 70 then ''...'' else ''''), ''Archived: '' @ archived]"
    by auto
  from addTOC_entries_pages [OF p0 l]
  obtain ts' k where
    p: "lay_pages s = NewPage (ts0 @ ts') # replicate k (NewPage [])"
    and n: "numbers_of ts' = map (\<lambda>h. estimatedPage (indexOf headings h) (getPageCount content)
                                   (int (length headings))) headings"
    and t: "strings_of ts' = map (entry_text st) headings"
    by auto
  have "toc_pages sz enc archived st headings (getPageCount content) title url = lay_pages s"
    using h l by (simp add: toc_pages_def layout_before_def)
  with b p n t hn hs show ?thesis
    by (simp add: numbers_of_append strings_of_append)
qed

lemma addTOC_ok:
  assumes "load pdfBuffer = Inr content"
    and "enc HelveticaBold ''Table of Contents'' = None"
    and "enc Helvetica title = None"
    and "enc Helvetica (take 70 url @ (if length url > 70 then ''...'' else '''')) = None"
    and "enc Helvetica (''Archived: '' @ archived) = None"
    and "\<forall>h \<in> set headings. \<forall>f. enc f (entry_text st h) = None"
  shows "\<exists>bytes. addTOC sz enc archived now st pdfBuffer headings title url = Inr bytes"
proof -
  from addTOC_header_ok [OF assms(2-5), of sz]
  obtain s0 :: "'a layout" where h: "addTOC_header sz enc archived title url = Inr s0" by blast
  from addTOC_header_pages [OF h] obtain ts where p: "lay_pages s0 = NewPage ts # []" by auto
  from addTOC_entries_ok [OF p assms(6), of sz headings "getPageCount content"]
  obtain s where "addTOC_entries sz enc st headings (getPageCount content) s0 headings = Inr s"
    by blast
  with h assms(1) show ?thesis by (simp add: addTOC_def)
qed

lemma layout_before_ok:
  assumes "enc HelveticaBold ''Table of Contents'' = None"
    and "enc Helvetica title = None"
    and "enc Helvetica (take 70 url @ (if length url > 70 then ''...'' else '''')) = None"
    and "enc Helvetica (''Archived: '' @ archived) = None"
    and "\<forall>h \<in> set headings. \<forall>f. enc f (entry_text st h) = None"
  shows "\<exists>s :: 'p layout. layout_before sz enc archived st headings P title url i = Inr s"
proof -
  from addTOC_header_ok [OF assms(1-4), of sz]
  obtain s0 :: "'p layout" where h: "addTOC_header sz enc archived title url = Inr s0" by blast
  from addTOC_header_pages [OF h] obtain ts where p: "lay_pages s0 = NewPage ts # []" by auto
  have "\<forall>h \<in> set (take i headings). \<forall>f. enc f (entry_text st h) = None"
    using assms(5) by (meson in_set_takeD)
  from addTOC_entries_ok [OF p this, of sz headings P] h
  show ?thesis by (simp add: layout_before_def)
qed

lemma estimatedPage_mono:
  assumes "0 < len" and "0 \<le> P" and "i \<le> j"
  shows "estimatedPage i P len \<le> estimatedPage j P len"
proof -
  have "i * P \<le> j * P" using assms by (simp add: mult_right_mono)
  then have "(i * P) div len \<le> (j * P) div len" using assms(1) by (rule zdiv_mono1)
  then show ?thesis unfolding estimatedPage_def by linarith
qed

lemma length_drawText: "drawText enc i t ps = Inr ps' \<Longrightarrow> length ps' = length ps"
  by (auto simp: drawText_def split: option.splits page.splits if_splits)

lemma addTOC_entry_cursor:
  assumes "addTOC_entry sz enc st headings P s h = Inr s'"
  shows "(length (lay_pages s'), yPosition s')
     = cursor_entry sz st (length (lay_pages s), yPosition s) h"
  using assms
  by (auto simp: addTOC_entry_def cursor_entry_def Let_def addPage_def
      split: sum.splits if_splits dest!: length_drawText)

lemma addTOC_entries_cursor:
  "addTOC_entries sz enc st headings P s hs = Inr s' \<Longrightarrow>
   (length (lay_pages s'), yPosition s')
     = foldl (cursor_entry sz st) (length (lay_pages s), yPosition s) hs"
proof (induction hs arbitrary: s)
  case Nil
  then show ?case by simp
next
  case (Cons h hs)
  from Cons.prems obtain s1 where
    s1: "addTOC_entry sz enc st headings P s h = Inr s1"
    and rec: "addTOC_entries sz enc st headings P s1 hs = Inr s'"
    by (auto split: sum.splits)
  from Cons.IH [OF rec] addTOC_entry_cursor [OF s1] show ?case by simp
qed

lemma layout_before_cursor:
  assumes "layout_before sz enc archived st headings P title url i = Inr s"
  shows "(length (lay_pages s), yPosition s)
     = foldl (cursor_entry sz st) (1, size_height sz - 140) (take i headings)"
proof -
  from assms obtain s0 where
    h: "addTOC_header sz enc archived title url = Inr s0"
    and l: "addTOC_entries sz enc st headings P s0 (take i headings) = Inr s"
    by (auto simp: layout_before_def split: sum.splits)
  from addTOC_header_pages [OF h] have "length (lay_pages s0) = 1"
    and "yPosition s0 = size_height sz - 140" by auto
  with addTOC_entries_cursor [OF l] show ?thesis by simp
qed

lemma cursor_level1_run:
  assumes "\<forall>h \<in> set hs. heading_level (st h) = 1"
    and "margin + 50 \<le> y - 20 * of_nat (length hs - 1)"
  shows "foldl (cursor_entry sz st) (n, y) hs = (n, y - 20 * of_nat (length hs))"
  using assms
proof (induction hs arbitrary: y)
  case Nil
  then show ?case by simp
next
  case (Cons h hs)
  have y: "margin + 50 \<le> y" using Cons.prems(2) by (simp add: margin_def)
  have step: "cursor_entry sz st (n, y) h = (n, y - 20)"
    using y Cons.prems(1) by (simp add: cursor_entry_def Let_def)
  show ?case
  proof (cases hs)
    case Nil
    then show ?thesis using step by simp
  next
    case (Cons h' hs')
    then have "margin + 50 \<le> (y - 20) - 20 * of_nat (length hs - 1)"
      using Cons.prems(2) by (simp add: algebra_simps)
    with Cons.IH [of "y - 20"] Cons.prems(1) step show ?thesis
      by (simp add: algebra_simps)
  qed
qed

lemma long_headings_cursor:
  "foldl (cursor_entry PageSizes_A4 level1_store) (1, size_height PageSizes_A4 - 140)
     (take 31 long_headings) = (1, 8189 / 100)"
  "foldl (cursor_entry PageSizes_A4 level1_store) (1, size_height PageSizes_A4 - 140)
     (take 32 long_headings) = (2, 77189 / 100)"
  "foldl (cursor_entry PageSizes_A4 level1_store) (1, size_height PageSizes_A4 - 140)
     long_headings = (2, 75189 / 100)"
proof -
  let ?f = "cursor_entry PageSizes_A4 level1_store"
  let ?c = "(1 :: nat, size_height PageSizes_A4 - 140)"
  have "foldl ?f ?c (take 31 long_headings)
      = (1, size_height PageSizes_A4 - 140 - 20 * of_nat (length (take 31 long_headings)))"
    by (rule cursor_level1_run)
      (simp_all add: level1_store_def long_headings_def PageSizes_A4_def margin_def)
  then show a: "foldl ?f ?c (take 31 long_headings) = (1, 8189 / 100)"
    by (simp add: long_headings_def PageSizes_A4_def)
  have "[0..<Suc 31] = [0..<31] @ [31]" by (rule upt_Suc_append) simp
  then have t32: "take 32 long_headings = take 31 long_headings @ [31]"
    by (simp add: long_headings_def)
  have "[0..<Suc 32] = [0..<32] @ [32]" by (rule upt_Suc_append) simp
  then have t33: "long_headings = take 32 long_headings @ [32]"
    by (simp add: long_headings_def)
  show b: "foldl ?f ?c (take 32 long_headings) = (2, 77189 / 100)"
    unfolding t32 foldl_append a
    by (simp add: cursor_entry_def level1_store_def PageSizes_A4_def margin_def)
  have "foldl ?f ?c (take 32 long_headings @ [32]) = (2, 75189 / 100)"
    unfolding foldl_append b
    by (simp add: cursor_entry_def level1_store_def PageSizes_A4_def margin_def)
  then show "foldl ?f ?c long_headings = (2, 75189 / 100)"
    using t33 by simp
qed

text \<open>The sample encoder accepts every string of the sample inputs, so \<open>addTOC\<close> returns
  on them.\<close>

lemma printable_ascii_samples:
  "printable_ascii f ''Table of Contents'' = None"
  "printable_ascii f ''Post'' = None"
  "printable_ascii f ''https://blog.example/post'' = None"
  "printable_ascii f ''Archived: November 3, 2026'' = None"
  "printable_ascii f ''Intro'' = None"
  "printable_ascii f ''Details'' = None"
  "printable_ascii f ''Chapter'' = None"
  "printable_ascii f long_title = None"
  by (simp_all add: printable_ascii_def long_title_def)

lemma entry_text_samples:
  "entry_text level1_store h = ''Chapter''"
  "entry_text intro_store 0 = ''Intro''"
  "entry_text intro_store (Suc 0) = ''Details''"
  "entry_text (array_store intro_headings) 0 = ''Intro''"
  "entry_text (array_store intro_headings) (Suc 0) = ''Details''"
  by (simp_all add: entry_text_def level1_store_def intro_store_def array_store_def
      intro_headings_def)

lemma array_refs_intro: "array_refs intro_headings = [0, Suc 0]"
  by (simp add: array_refs_def intro_headings_def)

lemma load_content_doc: "load (Serialized (content_doc n)) = Inr (content_doc n)"
  by (simp add: load_def)

lemma getPageCount_content_doc: "getPageCount (content_doc n) = int n"
  by (simp add: getPageCount_def content_doc_def)

lemma long_addTOC_ok:
  "\<exists>bytes. addTOC PageSizes_A4 printable_ascii ''November 3, 2026'' 0 level1_store
      (Serialized (content_doc 1)) long_headings ''Post'' ''https://blog.example/post''
    = Inr bytes"
  by (rule addTOC_ok [OF load_content_doc])
    (simp_all add: printable_ascii_samples entry_text_samples)

lemma long_layout_before_ok:
  "\<exists>s :: nat layout. layout_before PageSizes_A4 printable_ascii ''November 3, 2026'' level1_store
      long_headings 1 ''Post'' ''https://blog.example/post'' i = Inr s"
  by (rule layout_before_ok) (simp_all add: printable_ascii_samples entry_text_samples)

lemma intro_addTOC_ok:
  "\<exists>bytes. addTOC PageSizes_A4 printable_ascii ''November 3, 2026'' 0 intro_store
      (Serialized (content_doc 3)) [0, 1] ''Post'' ''https://blog.example/post'' = Inr bytes"
  "\<exists>bytes. addTOC PageSizes_A4 printable_ascii ''November 3, 2026'' 0 intro_store
      (Serialized (content_doc 3)) [0, 1] long_title ''https://blog.example/post'' = Inr bytes"
  "\<exists>bytes. addTOC PageSizes_A4 printable_ascii ''November 3, 2026'' 0
      (array_store intro_headings) (Serialized (content_doc 3)) (array_refs intro_headings)
      ''Post'' ''https://blog.example/post'' = Inr bytes"
  by (rule addTOC_ok [OF load_content_doc];
      simp add: printable_ascii_samples entry_text_samples array_refs_intro)+

text \<open>A title with a control character, which the sample encoder rejects: the first
  \<open>drawText\<close> of it throws and \<open>addTOC\<close> returns no document.\<close>

lemma addTOC_throws_on_unencodable_title:
  "addTOC PageSizes_A4 printable_ascii ''November 3, 2026'' 0 intro_store
      (Serialized (content_doc 3)) [0, 1] [CHR 0x01] ''https://blog.example/post''
    = Inl (Error ''WinAnsi cannot encode'')"
  by (simp add: addTOC_def load_def addTOC_header_def Let_def addPage_def drawText_Str
      printable_ascii_samples)
    (simp add: printable_ascii_def)

text \<open>The layout of the thirty-three level-1 headings: the cursor when the loop reaches the
  headings at positions 31 and 32, and the pages of the result.\<close>

lemma long_cursor:
  "cursor_of (layout_before PageSizes_A4 printable_ascii ''November 3, 2026'' level1_store
      long_headings 1 ''Post'' ''https://blog.example/post'' 31 :: error + nat layout)
     = Some (1, 8189 / 100)"
  "cursor_of (layout_before PageSizes_A4 printable_ascii ''November 3, 2026'' level1_store
      long_headings 1 ''Post'' ''https://blog.example/post'' 32 :: error + nat layout)
     = Some (2, 77189 / 100)"
proof -
  obtain s :: "nat layout" where
    s: "layout_before PageSizes_A4 printable_ascii ''November 3, 2026'' level1_store
      long_headings 1 ''Post'' ''https://blog.example/post'' 31 = Inr s"
    using long_layout_before_ok [of 31] by blast
  from layout_before_cursor [OF s]
  have "(length (lay_pages s), yPosition s) = (1, 8189 / 100)"
    by (simp only: long_headings_cursor)
  then show "cursor_of (layout_before PageSizes_A4 printable_ascii ''November 3, 2026''
      level1_store long_headings 1 ''Post'' ''https://blog.example/post'' 31 :: error + nat layout)
     = Some (1, 8189 / 100)"
    unfolding s by simp
  obtain s' :: "nat layout" where
    s': "layout_before PageSizes_A4 printable_ascii ''November 3, 2026'' level1_store
      long_headings 1 ''Post'' ''https://blog.example/post'' 32 = Inr s'"
    using long_layout_before_ok [of 32] by blast
  from layout_before_cursor [OF s']
  have "(length (lay_pages s'), yPosition s') = (2, 77189 / 100)"
    by (simp only: long_headings_cursor)
  then show "cursor_of (layout_before PageSizes_A4 printable_ascii ''November 3, 2026''
      level1_store long_headings 1 ''Post'' ''https://blog.example/post'' 32 :: error + nat layout)
     = Some (2, 77189 / 100)"
    unfolding s' by simp
qed

lemma long_addTOC_pages:
  "\<exists>ts. result_pages (addTOC PageSizes_A4 printable_ascii ''November 3, 2026'' 0 level1_store
           (Serialized (content_doc 1)) long_headings ''Post'' ''https://blog.example/post'')
         = [NewPage ts, NewPage [], RenderedPage 0]
     \<and> numbers_of ts = map (\<lambda>h. estimatedPage (indexOf long_headings h) 1 33) long_headings
     \<and> length ts = 70"
proof -
  obtain bytes where
    r: "addTOC PageSizes_A4 printable_ascii ''November 3, 2026'' 0 level1_store
          (Serialized (content_doc 1)) long_headings ''Post'' ''https://blog.example/post''
        = Inr bytes"
    using long_addTOC_ok by blast
  have g: "getPageCount (content_doc 1) = 1" by (simp add: getPageCount_content_doc)
  from addTOC_shape [OF r load_content_doc]
  obtain out ts k where
    b: "bytes = Serialized out"
    and p: "doc_pages out = NewPage ts # replicate k (NewPage []) @ doc_pages (content_doc 1)"
    and n: "numbers_of ts = map (\<lambda>h. estimatedPage (indexOf long_headings h) 1
                                   (int (length long_headings))) long_headings"
    and s: "strings_of ts = [''Table of Contents'', ''Post'',
          take 70 ''https://blog.example/post''
            @ (if length ''https://blog.example/post'' > 70 then ''...'' else ''''),
          ''Archived: '' @ ''November 3, 2026'']
          @ map (entry_text level1_store) long_headings"
    and t: "toc_pages PageSizes_A4 printable_ascii ''November 3, 2026'' level1_store
          long_headings 1 ''Post'' ''https://blog.example/post''
         = (NewPage ts # replicate k (NewPage []) :: nat page list)"
    unfolding g by blast
  obtain l :: "nat layout" where
    l: "layout_before PageSizes_A4 printable_ascii ''November 3, 2026'' level1_store
      long_headings 1 ''Post'' ''https://blog.example/post'' (length long_headings) = Inr l"
    using long_layout_before_ok [of "length long_headings"] by blast
  from layout_before_cursor [OF l]
  have "(length (lay_pages l), yPosition l) = (2, 75189 / 100)"
    by (simp only: take_all [OF order_refl] long_headings_cursor)
  then have "length (toc_pages PageSizes_A4 printable_ascii ''November 3, 2026'' level1_store
      long_headings 1 ''Post'' ''https://blog.example/post'' :: nat page list) = 2"
    by (simp add: toc_pages_def l)
  then have k: "k = 1" unfolding t by simp
  have ops: "length ts = 70"
    using n s by (simp add: length_ops [of ts] long_headings_def)
  have len: "int (length long_headings) = 33" by (simp add: long_headings_def)
  have "result_pages (addTOC PageSizes_A4 printable_ascii ''November 3, 2026'' 0 level1_store
           (Serialized (content_doc 1)) long_headings ''Post'' ''https://blog.example/post'')
         = [NewPage ts, NewPage [], RenderedPage 0]"
    using r b p k by (simp add: content_doc_def)
  with n ops len show ?thesis by simp
qed

section \<open>Lemmas on jobs and the batch loop\<close>

lemma parseInt_auto: "parseInt ''auto'' = None"
  by (simp add: parseInt_def isWhiteSpace_def digitValue_def Let_def)

lemma parseInt_1280: "parseInt ''1280'' = Some 1280"
  by (simp add: parseInt_def isWhiteSpace_def digitValue_def Let_def)

lemma init_manual:
  assumes "parseInt s = Some n" and "n \<noteq> 0"
  shows "init (Some s) full = \<lparr>viewportWidth = Width n, fullPage = full, page_viewport = n\<rparr>"
proof -
  have "s \<noteq> ''auto''" using assms(1) parseInt_auto by auto
  then show ?thesis using assms by (simp add: init_def constructor_viewportWidth_def)
qed

lemma init_auto:
  "init (Some ''auto'') full = \<lparr>viewportWidth = Auto, fullPage = full, page_viewport = 1280\<rparr>"
  by (simp add: init_def constructor_viewportWidth_def)

lemma render_job_manual:
  "e \<in> set (snd (render_job w a url p)) \<Longrightarrow> manual_event (page_viewport a) e"
  by (auto simp: render_job_def Let_def split: sum.splits option.splits)

lemma render_job_browser_events:
  "browser_events (snd (render_job w a url p))
     = (case w_extractHeadings w (page_viewport a) url of
          Inl e \<Rightarrow> [ExtractHeadings url (page_viewport a)]
        | Inr headings \<Rightarrow>
            (case w_pdf w (page_viewport a) (fullPage a) url of
               Inl e \<Rightarrow> [ExtractHeadings url (page_viewport a)]
             | Inr pdfBuffer \<Rightarrow> [ExtractHeadings url (page_viewport a), Pdf url (page_viewport a)]))"
  by (simp add: render_job_def browser_events_def Let_def split: sum.splits option.splits)

lemma generatePDFWithTOC_manual:
  assumes "viewportWidth a = Width n" and "n \<noteq> 1280"
  shows "fst (snd (generatePDFWithTOC w a url p)) = a
     \<and> (\<forall>e \<in> set (snd (snd (generatePDFWithTOC w a url p))). manual_event (page_viewport a) e)"
  using assms render_job_manual [of _ w a url p]
  by (simp add: generatePDFWithTOC_def split_def Let_def)

lemma generatePDFWithTOC_detect:
  assumes "viewportWidth a = Width 1280 \<or> viewportWidth a = Auto"
  shows "fst (snd (generatePDFWithTOC w a url p))
       = (case w_measure w url of
            Inl e \<Rightarrow> a\<lparr>page_viewport := 1920\<rparr>
          | Inr g \<Rightarrow> a\<lparr>viewportWidth := Width (recommendedWidth (detect_dimensions g)),
                       page_viewport := recommendedWidth (detect_dimensions g)\<rparr>)
     \<and> browser_events (snd (snd (generatePDFWithTOC w a url p)))
       = [SetViewport 1920, Detect url]
         @ (case w_measure w url of
              Inl e \<Rightarrow> []
            | Inr g \<Rightarrow> SetViewport (recommendedWidth (detect_dimensions g))
                # browser_events (snd (render_job w
                     (a\<lparr>viewportWidth := Width (recommendedWidth (detect_dimensions g)),
                        page_viewport := recommendedWidth (detect_dimensions g)\<rparr>) url p)))
     \<and> (\<forall>e. w_measure w url = Inl e \<longrightarrow> fst (generatePDFWithTOC w a url p) = Inl e)"
  using assms
  by (auto simp: generatePDFWithTOC_def detectOptimalViewport_def browser_events_def Let_def
      split_def split: sum.splits)

lemma generatePDFWithTOC_skip:
  assumes "viewportWidth a = Width n" and "n \<noteq> 1280"
  shows "browser_events (snd (snd (generatePDFWithTOC w a url p)))
       = browser_events (snd (render_job w a url p))"
  using assms by (simp add: generatePDFWithTOC_def split_def Let_def)

lemma process_urls_Cons:
  "process_urls w d a i (url # urls)
     = (job_result w d a i url # fst (process_urls w d
            (fst (snd (generatePDFWithTOC w a url (outputPath_of w d i url)))) (Suc i) urls),
        fst (snd (process_urls w d
            (fst (snd (generatePDFWithTOC w a url (outputPath_of w d i url)))) (Suc i) urls)),
        snd (snd (generatePDFWithTOC w a url (outputPath_of w d i url)))
          @ snd (snd (process_urls w d
            (fst (snd (generatePDFWithTOC w a url (outputPath_of w d i url)))) (Suc i) urls)))"
  by (simp add: split_def Let_def job_result_def)


lemma process_urls_manual:
  assumes "viewportWidth a = Width n" and "n \<noteq> 1280"
  shows "fst (snd (process_urls w d a i urls)) = a
     \<and> (\<forall>e \<in> set (snd (snd (process_urls w d a i urls))). manual_event (page_viewport a) e)"
proof (induction urls arbitrary: i)
  case Nil
  then show ?case by simp
next
  case (Cons url urls)
  from generatePDFWithTOC_manual [OF assms, of w url "outputPath_of w d i url"]
  have s: "fst (snd (generatePDFWithTOC w a url (outputPath_of w d i url))) = a"
    and e: "\<forall>e \<in> set (snd (snd (generatePDFWithTOC w a url (outputPath_of w d i url)))).
              manual_event (page_viewport a) e"
    by simp_all
  show ?case
    unfolding process_urls_Cons s using e Cons.IH [of "Suc i"] by auto
qed




lemma browser_events_append:
  "browser_events (xs @ ys) = browser_events xs @ browser_events ys"
  by (simp add: browser_events_def)

lemma browser_events_subset: "e \<in> set (browser_events evs) \<Longrightarrow> e \<in> set evs"
  by (simp add: browser_events_def)

lemma sample_recommendedWidth:
  "recommendedWidth (detect_dimensions sample_geometry) = 1050"
  "recommendedWidth (detect_dimensions narrow_geometry) = 840"
proof -
  have "content_maxWidth sample_geometry = 940"
    by (simp add: content_maxWidth_def sample_geometry_def selectors_def probe_selector_def)
  then have "overflow_documentWidth sample_geometry = 1000"
    by (simp add: overflow_documentWidth_def) (simp add: sample_geometry_def)
  moreover have "\<lceil>(1000 :: rat) * (105 / 100)\<rceil> = 1050" by simp
  ultimately show "recommendedWidth (detect_dimensions sample_geometry) = 1050"
    by (simp add: detect_dimensions_def)
  have "content_maxWidth narrow_geometry = 800"
    by (simp add: content_maxWidth_def narrow_geometry_def selectors_def probe_selector_def)
  then have "overflow_documentWidth narrow_geometry = 800"
    by (simp add: overflow_documentWidth_def) (simp add: narrow_geometry_def)
  moreover have "\<lceil>(800 :: rat) * (105 / 100)\<rceil> = 840" by simp
  ultimately show "recommendedWidth (detect_dimensions narrow_geometry) = 840"
    by (simp add: detect_dimensions_def)
qed

lemma sample_render_events:
  "browser_events (snd (render_job sample_world a ''https://blog.example/post'' p))
     = [ExtractHeadings ''https://blog.example/post'' (page_viewport a),
        Pdf ''https://blog.example/post'' (page_viewport a)]"
  "browser_events (snd (render_job sample_world a ''https://narrow.example/'' p))
     = [ExtractHeadings ''https://narrow.example/'' (page_viewport a),
        Pdf ''https://narrow.example/'' (page_viewport a)]"
  by (simp_all add: render_job_browser_events sample_world_def)


section \<open>The page estimates of the table of contents\<close>

text \<open>
  C1 (the code at the failing input).  Thirty-three level-1 headings on A4 pages over a
  one-page content document.  When the loop reaches the heading at position 32, two TOC
  pages are allocated, so the base of the claim is 3 and its estimate
  \<open>min (3 + floor (32 * 1 / 33)) (3 + 1 - 1) = 3\<close>, the page of the content.  The number
  drawn is 2: \<open>currentPage\<close> is still 2, and page 2 of the output (position 1 of its page
  list) is the blank second TOC page, the content being page 3 (position 2).
\<close>

theorem addTOC_estimate_after_overflow:
  "cursor_of (layout_before PageSizes_A4 printable_ascii ''November 3, 2026'' level1_store
      long_headings 1 ''Post'' ''https://blog.example/post'' 32 :: error + nat layout)
     = Some (2, 77189 / 100)
   \<and> toc_numbers (addTOC PageSizes_A4 printable_ascii ''November 3, 2026'' 0 level1_store
        (Serialized (content_doc 1)) long_headings ''Post'' ''https://blog.example/post'') ! 32
       = 2
   \<and> toc_numbers (addTOC PageSizes_A4 printable_ascii ''November 3, 2026'' 0 level1_store
        (Serialized (content_doc 1)) long_headings ''Post'' ''https://blog.example/post'') ! 32
       \<noteq> min ((2 + 1) + (32 * 1) div 33) ((2 + 1) + 1 - 1)
   \<and> result_pages (addTOC PageSizes_A4 printable_ascii ''November 3, 2026'' 0 level1_store
        (Serialized (content_doc 1)) long_headings ''Post'' ''https://blog.example/post'')
         ! 1
       = NewPage []
   \<and> result_pages (addTOC PageSizes_A4 printable_ascii ''November 3, 2026'' 0 level1_store
        (Serialized (content_doc 1)) long_headings ''Post'' ''https://blog.example/post'')
         ! 2
       = RenderedPage 0"
proof -
  let ?r = "addTOC PageSizes_A4 printable_ascii ''November 3, 2026'' 0 level1_store
        (Serialized (content_doc 1)) long_headings ''Post'' ''https://blog.example/post''"
  from long_addTOC_pages obtain ts where
    p: "result_pages ?r = [NewPage ts, NewPage [], RenderedPage 0]"
    and n: "numbers_of ts = map (\<lambda>h. estimatedPage (indexOf long_headings h) 1 33) long_headings"
    by blast
  have "toc_numbers ?r ! 32 = estimatedPage (indexOf long_headings (long_headings ! 32)) 1 33"
    using p n by (simp add: toc_numbers_def long_headings_def)
  also have "indexOf long_headings (long_headings ! 32) = 32"
    using indexOf_nth [of long_headings 32] by (simp add: long_headings_def)
  finally have e: "toc_numbers ?r ! 32 = 2"
    by (simp add: estimatedPage_def currentPage_def)
  show ?thesis
    using e p long_cursor(2) by simp
qed

section \<open>Page count of the output\<close>

text \<open>
  C2.  For a content buffer that parses with \<open>P\<close> pages and any heading array, whenever
  \<open>generatePDFWithTOC\<close> has bytes to write (the composition did not throw), they parse, and
  the page count is the number of TOC pages plus \<open>P\<close>: with no heading the bytes are the
  content buffer itself and there is no TOC page; with headings the pages are the TOC pages
  \<open>addTOC\<close> allocated followed by the content pages in their order.
\<close>

theorem output_page_count:
  assumes "output_bytes w (pdfBuffer :: 'p pdf_bytes) headings title url = Inr bytes"
    and "load pdfBuffer = Inr content"
  shows "\<exists>out.
     load bytes = Inr out
     \<and> (headings = [] \<longrightarrow> bytes = pdfBuffer \<and> getPageCount out = getPageCount content)
     \<and> (headings \<noteq> [] \<longrightarrow>
          doc_pages out
            = toc_pages (w_pageSize w) (w_encode w) (w_archived w) (w_store w) headings
                (getPageCount content) title url @ doc_pages content
          \<and> getPageCount out
            = int (length (toc_pages (w_pageSize w) (w_encode w) (w_archived w) (w_store w)
                     headings (getPageCount content) title url :: 'p page list))
              + getPageCount content)"
proof (cases "headings = []")
  case True
  then show ?thesis using assms by (simp add: output_bytes_def)
next
  case False
  then have r: "addTOC (w_pageSize w) (w_encode w) (w_archived w) (w_now w) (w_store w)
      pdfBuffer headings title url = Inr bytes"
    using assms(1) by (simp add: output_bytes_def)
  from addTOC_shape [OF r assms(2)]
  obtain out ts k where
    b: "bytes = Serialized out"
    and p: "doc_pages out = NewPage ts # replicate k (NewPage []) @ doc_pages content"
    and t: "toc_pages (w_pageSize w) (w_encode w) (w_archived w) (w_store w) headings
          (getPageCount content) title url
         = (NewPage ts # replicate k (NewPage []) :: 'p page list)"
    by blast
  have "doc_pages out
      = toc_pages (w_pageSize w) (w_encode w) (w_archived w) (w_store w) headings
          (getPageCount content) title url @ doc_pages content"
    using p t by simp
  then show ?thesis
    using False b by (simp add: load_def getPageCount_def)
qed

theorem output_page_count_witness:
  "output_bytes sample_world (Serialized (content_doc 3)) [0, 1] ''Post''
       ''https://blog.example/post''
     = Inr (projr (output_bytes sample_world (Serialized (content_doc 3)) [0, 1] ''Post''
              ''https://blog.example/post''))
   \<and> load (Serialized (content_doc 3)) = Inr (content_doc 3)
   \<and> (\<exists>out. load (projr (output_bytes sample_world (Serialized (content_doc 3)) [0, 1] ''Post''
                ''https://blog.example/post'')) = Inr out
        \<and> getPageCount out = 4)
   \<and> output_bytes sample_world (Serialized (content_doc 3)) [] ''Post''
          ''https://blog.example/post'' = Inr (Serialized (content_doc 3))"
proof -
  let ?o = "output_bytes sample_world (Serialized (content_doc 3)) [0, 1] ''Post''
              ''https://blog.example/post''"
  have "\<exists>bytes. ?o = Inr bytes"
    using intro_addTOC_ok(1) by (simp add: output_bytes_def sample_world_def)
  then have a: "?o = Inr (projr ?o)" by auto
  have e: "output_bytes sample_world (Serialized (content_doc 3)) [] ''Post''
          ''https://blog.example/post'' = Inr (Serialized (content_doc 3))"
    by (simp add: output_bytes_def)
  have g: "getPageCount (content_doc 3) = 3" by (simp add: getPageCount_content_doc)
  obtain l :: "nat layout" where
    l: "layout_before PageSizes_A4 printable_ascii ''November 3, 2026'' intro_store [0, 1] 3
          ''Post'' ''https://blog.example/post'' (length [0, 1 :: ref]) = Inr l"
    using layout_before_ok [of printable_ascii "''Post''" "''https://blog.example/post''"
        "''November 3, 2026''" "[0, 1]" intro_store PageSizes_A4 3 "length [0, 1 :: ref]"]
    by (auto simp: printable_ascii_samples entry_text_samples)
  have "foldl (cursor_entry PageSizes_A4 intro_store) (1, size_height PageSizes_A4 - 140)
      (take (length [0, 1 :: ref]) [0, 1]) = (1, 66389 / 100)"
    by (simp add: cursor_entry_def intro_store_def PageSizes_A4_def margin_def)
  with layout_before_cursor [OF l] have "length (lay_pages l) = 1" by simp
  then have t: "length (toc_pages (w_pageSize sample_world) (w_encode sample_world)
      (w_archived sample_world) (w_store sample_world) [0, 1] 3 ''Post''
      ''https://blog.example/post'' :: nat page list) = 1"
    using l by (simp add: toc_pages_def sample_world_def)
  from output_page_count [OF a load_content_doc]
  obtain out where
    "load (projr ?o) = Inr out" and "getPageCount out = 4"
    unfolding g t by auto
  then have "\<exists>out. load (projr ?o) = Inr out \<and> getPageCount out = 4" by blast
  with a e load_content_doc show ?thesis by blast
qed

section \<open>Overflow pages of the table of contents\<close>

text \<open>
  C3 (the code at the failing input).  Thirty-three level-1 headings on A4 pages over a
  one-page content document: when the loop reaches the heading at position 31 there is one
  TOC page and the cursor is at 81.89, below the threshold 100; that iteration allocates a
  second TOC page and resets the cursor, so the output has two TOC pages and one content
  page.  But the entries of the headings at positions 31 and 32 are drawn on the first page
  with all the others (4 header strings and 66 entry items), and the second TOC page is
  blank.
\<close>

theorem addTOC_overflow_page_blank:
  "cursor_of (layout_before PageSizes_A4 printable_ascii ''November 3, 2026'' level1_store
      long_headings 1 ''Post'' ''https://blog.example/post'' 31 :: error + nat layout)
     = Some (1, 8189 / 100)
   \<and> cursor_of (layout_before PageSizes_A4 printable_ascii ''November 3, 2026'' level1_store
      long_headings 1 ''Post'' ''https://blog.example/post'' 32 :: error + nat layout)
     = Some (2, 77189 / 100)
   \<and> length (result_pages (addTOC PageSizes_A4 printable_ascii ''November 3, 2026'' 0
        level1_store (Serialized (content_doc 1)) long_headings ''Post''
        ''https://blog.example/post'')) = 3
   \<and> length (page_ops (result_pages (addTOC PageSizes_A4 printable_ascii ''November 3, 2026'' 0
        level1_store (Serialized (content_doc 1)) long_headings ''Post''
        ''https://blog.example/post'') ! 0))
       = 70
   \<and> result_pages (addTOC PageSizes_A4 printable_ascii ''November 3, 2026'' 0 level1_store
        (Serialized (content_doc 1)) long_headings ''Post'' ''https://blog.example/post'') ! 1
       = NewPage []
   \<and> result_pages (addTOC PageSizes_A4 printable_ascii ''November 3, 2026'' 0 level1_store
        (Serialized (content_doc 1)) long_headings ''Post'' ''https://blog.example/post'') ! 2
       = RenderedPage 0"
proof -
  from long_addTOC_pages obtain ts where
    p: "result_pages (addTOC PageSizes_A4 printable_ascii ''November 3, 2026'' 0 level1_store
           (Serialized (content_doc 1)) long_headings ''Post'' ''https://blog.example/post'')
         = [NewPage ts, NewPage [], RenderedPage 0]"
    and l: "length ts = 70"
    by blast
  show ?thesis using p l long_cursor by simp
qed

section \<open>Truncation of the drawn text\<close>




section \<open>The recommended viewport width\<close>

lemma overflow_documentWidth_Max:
  "overflow_documentWidth g = Max (set (content_maxWidth g # geo_rights g))"
proof -
  have f: "(\<lambda>right documentWidth. if right > documentWidth then right else documentWidth)
             = (max :: rat \<Rightarrow> rat \<Rightarrow> rat)"
    by (intro ext) (simp add: max_def)
  have "overflow_documentWidth g = fold max (geo_rights g) (content_maxWidth g)"
    by (simp add: overflow_documentWidth_def foldl_conv_fold f)
  also have "\<dots> = Max (set (content_maxWidth g # geo_rights g))"
    by (rule Max.set_eq_fold [symmetric])
  finally show ?thesis .
qed

text \<open>
  C5 (as amended).  For every measured geometry the recommended width is
  \<open>clamp (ceil (m * 1.05)) 768 1400\<close>, where \<open>m\<close> is the largest of the content width and the
  right edges of all elements; it lies in \<open>[768, 1400]\<close>.  The scroll width is the larger of
  the two scroll widths and is only reported.
\<close>

theorem recommendedWidth_formula:
  "recommendedWidth (detect_dimensions g)
     = min 1400 (max 768 \<lceil>Max (set (content_maxWidth g # geo_rights g)) * (105 / 100)\<rceil>)
   \<and> 768 \<le> recommendedWidth (detect_dimensions g)
   \<and> recommendedWidth (detect_dimensions g) \<le> 1400
   \<and> scrollWidth (detect_dimensions g) = max (geo_bodyScrollWidth g) (geo_htmlScrollWidth g)"
  by (simp add: detect_dimensions_def overflow_documentWidth_Max)

text \<open>Counterexample to C5 as stated: with the scroll width among the tracked widths the
  stated formula gives 1400 for the document of fixed width 800; the code recommends 840.\<close>

theorem recommendedWidth_scrollWidth_counterexample:
  "recommendedWidth (detect_dimensions fixed_width_geometry) = 840
   \<and> spec_recommendedWidth fixed_width_geometry = 1400
   \<and> recommendedWidth (detect_dimensions fixed_width_geometry)
       \<noteq> spec_recommendedWidth fixed_width_geometry"
proof -
  have c: "content_maxWidth fixed_width_geometry = 800"
    by (simp add: content_maxWidth_def fixed_width_geometry_def selectors_def probe_selector_def)
  have d: "overflow_documentWidth fixed_width_geometry = 800"
    by (simp add: overflow_documentWidth_def c) (simp add: fixed_width_geometry_def)
  have "\<lceil>(800 :: rat) * (105 / 100)\<rceil> = 840" by simp
  then have r: "recommendedWidth (detect_dimensions fixed_width_geometry) = 840"
    by (simp add: detect_dimensions_def d)
  have "Max (set ([content_maxWidth fixed_width_geometry] @ geo_rights fixed_width_geometry
          @ [of_int (max (geo_bodyScrollWidth fixed_width_geometry)
                          (geo_htmlScrollWidth fixed_width_geometry))])) = (1920 :: rat)"
    by (simp add: c) (simp add: fixed_width_geometry_def)
  then have s: "spec_recommendedWidth fixed_width_geometry = 1400"
    by (simp add: spec_recommendedWidth_def)
  from r s show ?thesis by simp
qed

section \<open>Manual width override\<close>

text \<open>
  C6 (as amended).  When the width option is a string that \<open>parseInt\<close> reads as an integer
  \<open>n\<close> other than 0 and 1280, then in every job of a batch run from the initialised archiver
  no measurement is made and the viewport is never changed, heading extraction and PDF
  rendering happen at viewport width \<open>n\<close>, and the archiver is left as it was.
\<close>

theorem manual_width_override:
  assumes "parseInt s = Some n" and "n \<noteq> 0" and "n \<noteq> 1280"
  shows "page_viewport (init (Some s) full) = n
     \<and> fst (snd (process_urls w outputDir (init (Some s) full) i urls)) = init (Some s) full
     \<and> (\<forall>e \<in> set (snd (snd (process_urls w outputDir (init (Some s) full) i urls))).
          manual_event n e)"
proof -
  have a: "init (Some s) full = \<lparr>viewportWidth = Width n, fullPage = full, page_viewport = n\<rparr>"
    using assms(1,2) by (rule init_manual)
  have v: "viewportWidth (init (Some s) full) = Width n" by (simp add: a)
  have p: "page_viewport (init (Some s) full) = n" by (simp add: a)
  from process_urls_manual [OF v assms(3), of w outputDir i urls] p
  show ?thesis by simp
qed

theorem manual_width_override_witness:
  "parseInt ''1000'' = Some 1000 \<and> (1000 :: int) \<noteq> 0 \<and> (1000 :: int) \<noteq> 1280
   \<and> Pdf ''https://blog.example/post'' 1000
        \<in> set (snd (snd (process_urls sample_world ''./archive'' (init (Some ''1000'') False) 0
                            [''https://blog.example/post''])))
   \<and> manual_event 1000 (Pdf ''https://blog.example/post'' 1000 :: nat event)
   \<and> fst (snd (process_urls sample_world ''./archive'' (init (Some ''1000'') False) 0
                  [''https://blog.example/post'']))
       = \<lparr>viewportWidth = Width 1000, fullPage = False, page_viewport = 1000\<rparr>"
proof -
  have a: "parseInt ''1000'' = Some 1000"
    by (simp add: parseInt_def isWhiteSpace_def digitValue_def Let_def)
  have b: "(1000 :: int) \<noteq> 0" and c: "(1000 :: int) \<noteq> 1280" by simp_all
  have i: "init (Some ''1000'') False
      = \<lparr>viewportWidth = Width 1000, fullPage = False, page_viewport = 1000\<rparr>"
    using a b by (rule init_manual)
  have "browser_events (snd (snd (generatePDFWithTOC sample_world (init (Some ''1000'') False)
          ''https://blog.example/post''
          (outputPath_of sample_world ''./archive'' 0 ''https://blog.example/post''))))
      = [ExtractHeadings ''https://blog.example/post'' 1000, Pdf ''https://blog.example/post'' 1000]"
    unfolding i by (simp add: generatePDFWithTOC_skip [of _ 1000] sample_render_events)
  then have "Pdf ''https://blog.example/post'' 1000
      \<in> set (browser_events (snd (snd (generatePDFWithTOC sample_world (init (Some ''1000'') False)
          ''https://blog.example/post''
          (outputPath_of sample_world ''./archive'' 0 ''https://blog.example/post'')))))"
    by simp
  then have m: "Pdf ''https://blog.example/post'' 1000
      \<in> set (snd (snd (process_urls sample_world ''./archive'' (init (Some ''1000'') False) 0
                            [''https://blog.example/post''])))"
    unfolding process_urls_Cons by (simp add: browser_events_subset)
  show ?thesis
    using a m i manual_width_override [OF a b c, of False sample_world "''./archive''" 0
        "[''https://blog.example/post'']"]
    by simp
qed

text \<open>Counterexample to C6 as stated: an override of 1280 does not skip detection; the job
  measures the page and renders at the measured width 1050.\<close>

theorem manual_width_1280_counterexample:
  "init (Some ''1280'') False
     = \<lparr>viewportWidth = Width 1280, fullPage = False, page_viewport = 1280\<rparr>
   \<and> browser_events (snd (snd (generatePDFWithTOC sample_world (init (Some ''1280'') False)
        ''https://blog.example/post'' ''./archive/blog_example_2026-11-03T08-56-00.pdf'')))
       = [SetViewport 1920, Detect ''https://blog.example/post'', SetViewport 1050,
          ExtractHeadings ''https://blog.example/post'' 1050,
          Pdf ''https://blog.example/post'' 1050]"
proof -
  have i: "init (Some ''1280'') False
      = \<lparr>viewportWidth = Width 1280, fullPage = False, page_viewport = 1280\<rparr>"
    using parseInt_1280 by (rule init_manual) simp
  have m: "w_measure sample_world ''https://blog.example/post'' = Inr sample_geometry"
    by (simp add: sample_world_def)
  have "browser_events (snd (snd (generatePDFWithTOC sample_world
          \<lparr>viewportWidth = Width 1280, fullPage = False, page_viewport = 1280\<rparr>
          ''https://blog.example/post'' ''./archive/blog_example_2026-11-03T08-56-00.pdf'')))
       = [SetViewport 1920, Detect ''https://blog.example/post'', SetViewport 1050,
          ExtractHeadings ''https://blog.example/post'' 1050,
          Pdf ''https://blog.example/post'' 1050]"
    by (simp add: generatePDFWithTOC_detect m sample_recommendedWidth sample_render_events)
  with i show ?thesis by simp
qed

section \<open>Width detection across the jobs of a batch\<close>

text \<open>
  C7 (the code at the failing input).  A batch of two URLs with the width left at
  \<open>auto\<close>: the first job measures its page and sets the viewport to 1050; the second job makes
  no measurement and extracts and renders at 1050, the width of the first job, although its
  own page measures to 840.
\<close>

theorem batch_width_reused:
  "browser_events (snd (snd (process_urls sample_world ''./archive'' (init (Some ''auto'') False) 0
      [''https://blog.example/post'', ''https://narrow.example/''])))
     = [SetViewport 1920, Detect ''https://blog.example/post'', SetViewport 1050,
        ExtractHeadings ''https://blog.example/post'' 1050,
        Pdf ''https://blog.example/post'' 1050,
        ExtractHeadings ''https://narrow.example/'' 1050,
        Pdf ''https://narrow.example/'' 1050]
   \<and> w_measure sample_world ''https://narrow.example/'' = Inr narrow_geometry
   \<and> recommendedWidth (detect_dimensions narrow_geometry) = 840"
proof -
  let ?a0 = "\<lparr>viewportWidth = Auto, fullPage = False, page_viewport = 1280\<rparr>"
  let ?a1 = "\<lparr>viewportWidth = Width 1050, fullPage = False, page_viewport = 1050\<rparr>"
  let ?p0 = "outputPath_of sample_world ''./archive'' 0 ''https://blog.example/post''"
  let ?p1 = "outputPath_of sample_world ''./archive'' (Suc 0) ''https://narrow.example/''"
  have m: "w_measure sample_world ''https://blog.example/post'' = Inr sample_geometry"
    and m': "w_measure sample_world ''https://narrow.example/'' = Inr narrow_geometry"
    by (simp_all add: sample_world_def)
  have s1: "fst (snd (generatePDFWithTOC sample_world ?a0 ''https://blog.example/post'' ?p0)) = ?a1"
    by (simp add: generatePDFWithTOC_detect m sample_recommendedWidth)
  have e1: "browser_events (snd (snd (generatePDFWithTOC sample_world ?a0
        ''https://blog.example/post'' ?p0)))
      = [SetViewport 1920, Detect ''https://blog.example/post'', SetViewport 1050,
         ExtractHeadings ''https://blog.example/post'' 1050,
         Pdf ''https://blog.example/post'' 1050]"
    by (simp add: generatePDFWithTOC_detect m sample_recommendedWidth sample_render_events)
  have e2: "browser_events (snd (snd (generatePDFWithTOC sample_world ?a1
        ''https://narrow.example/'' ?p1)))
      = [ExtractHeadings ''https://narrow.example/'' 1050, Pdf ''https://narrow.example/'' 1050]"
    by (simp add: generatePDFWithTOC_skip [of _ 1050] sample_render_events)
  have "browser_events (snd (snd (process_urls sample_world ''./archive'' ?a0 0
      [''https://blog.example/post'', ''https://narrow.example/''])))
     = [SetViewport 1920, Detect ''https://blog.example/post'', SetViewport 1050,
        ExtractHeadings ''https://blog.example/post'' 1050,
        Pdf ''https://blog.example/post'' 1050,
        ExtractHeadings ''https://narrow.example/'' 1050,
        Pdf ''https://narrow.example/'' 1050]"
    unfolding process_urls_Cons s1 by (simp add: browser_events_append e1 e2)
  then show ?thesis by (simp add: init_auto m' sample_recommendedWidth)
qed

section \<open>Failures inside a batch\<close>



section \<open>Monotone estimates\<close>

lemma addTOC_numbers_sorted:
  assumes "addTOC sz enc archived now st pdfBuffer headings title url = Inr bytes"
    and "load pdfBuffer = Inr content"
    and "distinct headings"
    and "1 \<le> length headings"
    and "1 \<le> getPageCount content"
  shows "length (toc_numbers (Inr bytes)) = length headings \<and> sorted (toc_numbers (Inr bytes))"
proof -
  let ?P = "getPageCount content" and ?H = "int (length headings)"
  let ?ns = "toc_numbers (Inr bytes)"
  from addTOC_shape [OF assms(1,2)]
  obtain out ts k where
    b: "bytes = Serialized out"
    and p: "doc_pages out = NewPage ts # replicate k (NewPage []) @ doc_pages content"
    and n: "numbers_of ts = map (\<lambda>h. estimatedPage (indexOf headings h) ?P ?H) headings"
    by blast
  have ns: "?ns = map (\<lambda>h. estimatedPage (indexOf headings h) ?P ?H) headings"
    using b p n by (simp add: toc_numbers_def)
  have len: "length ?ns = length headings" by (simp add: ns)
  have nth: "?ns ! i = estimatedPage (int i) ?P ?H" if "i < length headings" for i
    using that assms(3) by (simp add: ns indexOf_nth)
  have H: "0 < ?H" using assms(4) by (cases headings) simp_all
  have "?ns ! i \<le> ?ns ! j" if "i \<le> j" and "j < length ?ns" for i j
  proof -
    have "estimatedPage (int i) ?P ?H \<le> estimatedPage (int j) ?P ?H"
      using H assms(5) that(1) by (intro estimatedPage_mono) simp_all
    then show ?thesis using that len by (simp add: nth)
  qed
  then have "sorted ?ns" by (simp add: sorted_iff_nth_mono)
  with len show ?thesis by simp
qed

text \<open>
  C9.  For every sequence \<open>hs\<close> of \<open>H \<ge> 1\<close> heading records, held as the array of heading
  objects that \<open>extractHeadings\<close> returns, and every content buffer that parses with
  \<open>P \<ge> 1\<close> pages: whenever \<open>addTOC\<close> returns, the page numbers it has drawn are one per
  heading, in heading order, and never decrease.
\<close>

theorem addTOC_estimates_sorted:
  assumes "addTOC sz enc archived now (array_store hs) pdfBuffer (array_refs hs) title url
             = Inr bytes"
    and "load pdfBuffer = Inr content"
    and "1 \<le> length hs"
    and "1 \<le> getPageCount content"
  shows "length (toc_numbers (Inr bytes)) = length hs \<and> sorted (toc_numbers (Inr bytes))"
proof -
  have d: "distinct (array_refs hs)" by (simp add: array_refs_def)
  have l: "length (array_refs hs) = length hs" by (simp add: array_refs_def)
  from addTOC_numbers_sorted [OF assms(1,2) d _ assms(4)] assms(3) l
  show ?thesis by simp
qed

theorem addTOC_estimates_sorted_witness:
  "addTOC PageSizes_A4 printable_ascii ''November 3, 2026'' 0 (array_store intro_headings)
       (Serialized (content_doc 3)) (array_refs intro_headings) ''Post''
       ''https://blog.example/post''
     = Inr (projr (addTOC PageSizes_A4 printable_ascii ''November 3, 2026'' 0
              (array_store intro_headings) (Serialized (content_doc 3))
              (array_refs intro_headings) ''Post'' ''https://blog.example/post''))
   \<and> load (Serialized (content_doc 3)) = Inr (content_doc 3)
   \<and> 1 \<le> length intro_headings
   \<and> 1 \<le> getPageCount (content_doc 3)
   \<and> length (toc_numbers (addTOC PageSizes_A4 printable_ascii ''November 3, 2026'' 0
        (array_store intro_headings) (Serialized (content_doc 3)) (array_refs intro_headings)
        ''Post'' ''https://blog.example/post'')) = 2
   \<and> sorted (toc_numbers (addTOC PageSizes_A4 printable_ascii ''November 3, 2026'' 0
        (array_store intro_headings) (Serialized (content_doc 3)) (array_refs intro_headings)
        ''Post'' ''https://blog.example/post''))"
proof -
  let ?r = "addTOC PageSizes_A4 printable_ascii ''November 3, 2026'' 0
              (array_store intro_headings) (Serialized (content_doc 3))
              (array_refs intro_headings) ''Post'' ''https://blog.example/post''"
  have a: "?r = Inr (projr ?r)" using intro_addTOC_ok(3) by auto
  have c: "1 \<le> length intro_headings" by (simp add: intro_headings_def)
  have d: "1 \<le> getPageCount (content_doc 3)" by (simp add: getPageCount_content_doc)
  have n: "length intro_headings = 2" by (simp add: intro_headings_def)
  from addTOC_estimates_sorted [OF a load_content_doc c d]
  have "length (toc_numbers (Inr (projr ?r))) = 2 \<and> sorted (toc_numbers (Inr (projr ?r)))"
    by (simp add: n)
  then have "length (toc_numbers ?r) = 2 \<and> sorted (toc_numbers ?r)"
    using a by simp
  with a c d load_content_doc show ?thesis by blast
qed

section \<open>The popup's guard\<close>

text \<open>
  C10.  If the click handler dispatches a message, then it is a \<open>generatePDF\<close> request for the
  URL of an active tab whose URL is present and starts with neither \<open>chrome://\<close> nor
  \<open>edge://\<close>; and for a tab whose URL is missing or starts with one of the two, the handler
  only shows the error status and dispatches nothing.
\<close>

theorem generate_click_guard:
  "(SendMessage a u ttl \<in> set (generate_click t thrown) \<longrightarrow>
      a = ''generatePDF''
      \<and> (\<exists>tb. t = Some tb \<and> tab_url tb = Some u \<and> ttl = tab_title tb)
      \<and> u \<noteq> [] \<and> \<not> startsWith u ''chrome://'' \<and> \<not> startsWith u ''edge://'')
   \<and> ((case tab_url tb' of
          None \<Rightarrow> True
        | Some u' \<Rightarrow> u' = [] \<or> startsWith u' ''chrome://'' \<or> startsWith u' ''edge://'') \<longrightarrow>
       generate_click (Some tb') thrown'
         = [ShowStatus ''Cannot generate PDF for this page'' ''error'']
       \<and> (\<forall>a' v ttl'. SendMessage a' v ttl' \<notin> set (generate_click (Some tb') thrown')))"
  by (auto simp: generate_click_def split: option.splits if_splits)

theorem generate_click_guard_witness:
  "SendMessage ''generatePDF'' ''https://blog.example/post'' (Some ''Post'')
     \<in> set (generate_click (Some web_tab) None)
   \<and> \<not> startsWith ''https://blog.example/post'' ''chrome://''
   \<and> \<not> startsWith ''https://blog.example/post'' ''edge://''
   \<and> startsWith ''chrome://extensions/'' ''chrome://''
   \<and> generate_click (Some internal_tab) None
       = [ShowStatus ''Cannot generate PDF for this page'' ''error'']"
proof -
  have s: "SendMessage ''generatePDF'' ''https://blog.example/post'' (Some ''Post'')
     \<in> set (generate_click (Some web_tab) None)"
    by (simp add: generate_click_def web_tab_def startsWith_def)
  have i: "(case tab_url internal_tab of
          None \<Rightarrow> True
        | Some u' \<Rightarrow> u' = [] \<or> startsWith u' ''chrome://'' \<or> startsWith u' ''edge://'')"
    by (simp add: internal_tab_def startsWith_def)
  have c: "startsWith ''chrome://extensions/'' ''chrome://''" by (simp add: startsWith_def)
  show ?thesis
    using s i c generate_click_guard [of "''generatePDF''" "''https://blog.example/post''"
        "Some ''Post''" "Some web_tab" None internal_tab None]
    by simp
qed



end
